theory Spec2Isabelle
  imports Main "HOL-Library.Word"
begin

unbundle bit_operations_syntax

section \<open>JavaScript values\<close>

text \<open>
  The handlers of \<^verbatim>\<open>Backend/server.js\<close> read their inputs from a parsed JSON body and test
  them with \<^verbatim>\<open>!x\<close>. A body field is therefore a JavaScript value; strings are byte lists
  (the UTF-8 text), numbers are the integral ones (only being zero is observed), and
  arrays and objects are one opaque value, which is always truthy.
\<close>

datatype jsval = JUndefined | JNull | JBool bool | JNum int | JStr string | JObject

fun truthy :: "jsval \<Rightarrow> bool" where
  "truthy JUndefined = False"
| "truthy JNull = False"
| "truthy (JBool b) = b"
| "truthy (JNum n) = (n \<noteq> 0)"
| "truthy (JStr s) = (s \<noteq> [])"
| "truthy JObject = True"

text \<open>A JSON object; reading a property that is absent gives \<^verbatim>\<open>undefined\<close>.\<close>

type_synonym json_object = "string \<rightharpoonup> jsval"

definition js_get :: "json_object \<Rightarrow> string \<Rightarrow> jsval" where
  "js_get obj k = (case obj k of None \<Rightarrow> JUndefined | Some v \<Rightarrow> v)"

text \<open>A thrown error; the handlers only ever look at its \<^verbatim>\<open>code\<close> property.\<close>

datatype js_error = JsError (err_code: "string option")

definition type_error :: js_error where
  "type_error = JsError (Some ''ERR_INVALID_ARG_TYPE'')"

definition range_error :: js_error where
  "range_error = JsError None"

definition dup_entry :: js_error where
  "dup_entry = JsError (Some ''ER_DUP_ENTRY'')"

subsection \<open>String operations used by the source\<close>

definition startsWith :: "string \<Rightarrow> string \<Rightarrow> bool" where
  "startsWith s p = (take (length p) s = p)"

text \<open>\<^verbatim>\<open>s.split(c)\<close> for a one-character separator: never the empty list.\<close>

fun split_on :: "char \<Rightarrow> string \<Rightarrow> string list" where
  "split_on c [] = [[]]"
| "split_on c (x # xs) =
     (if x = c then [] # split_on c xs
      else (case split_on c xs of
              [] \<Rightarrow> [[x]]
            | y # ys \<Rightarrow> (x # y) # ys))"

text \<open>Indexing an array: \<^verbatim>\<open>undefined\<close> (here \<open>None\<close>) out of range.\<close>

fun nth_opt :: "'a list \<Rightarrow> nat \<Rightarrow> 'a option" where
  "nth_opt [] n = None"
| "nth_opt (x # xs) 0 = Some x"
| "nth_opt (x # xs) (Suc n) = nth_opt xs n"

text \<open>\<^verbatim>\<open>s.replace(a, b)\<close> with a string pattern of one character: the first occurrence only.\<close>

fun replace_first :: "char \<Rightarrow> char \<Rightarrow> string \<Rightarrow> string" where
  "replace_first a b [] = []"
| "replace_first a b (x # xs) = (if x = a then b # xs else x # replace_first a b xs)"

text \<open>Decimal rendering and \<^verbatim>\<open>padStart\<close>.\<close>

definition digit_char :: "nat \<Rightarrow> char" where
  "digit_char d = ''0123456789'' ! (d mod 10)"

fun dec :: "nat \<Rightarrow> string" where
  "dec n = (if n < 10 then [digit_char n] else dec (n div 10) @ [digit_char (n mod 10)])"

definition padStart :: "nat \<Rightarrow> char \<Rightarrow> string \<Rightarrow> string" where
  "padStart n c s = replicate (n - length s) c @ s"

section \<open>The crypto module\<close>

type_synonym byte = "8 word"
type_synonym w32 = "32 word"

subsection \<open>Hexadecimal rendering (\<^verbatim>\<open>toString('hex')\<close>, \<^verbatim>\<open>digest('hex')\<close>)\<close>

definition hex_digit :: "nat \<Rightarrow> char" where
  "hex_digit n = ''0123456789abcdef'' ! (n mod 16)"

definition byte_hex :: "byte \<Rightarrow> string" where
  "byte_hex b = [hex_digit (unat b div 16), hex_digit (unat b mod 16)]"

definition to_hex :: "byte list \<Rightarrow> string" where
  "to_hex bs = concat (map byte_hex bs)"

definition is_hex_char :: "char \<Rightarrow> bool" where
  "is_hex_char c = (c \<in> set ''0123456789abcdef'')"

definition utf8_bytes :: "string \<Rightarrow> byte list" where
  "utf8_bytes s = map (\<lambda>c. of_nat (of_char c)) s"

subsection \<open>SHA-256 (FIPS 180-4), the digest behind \<^verbatim>\<open>createHash('sha256')\<close>\<close>

definition sha_ch :: "w32 \<Rightarrow> w32 \<Rightarrow> w32 \<Rightarrow> w32" where
  "sha_ch x y z = (x AND y) XOR (NOT x AND z)"

definition sha_maj :: "w32 \<Rightarrow> w32 \<Rightarrow> w32 \<Rightarrow> w32" where
  "sha_maj x y z = (x AND y) XOR (x AND z) XOR (y AND z)"

definition big_sigma0 :: "w32 \<Rightarrow> w32" where
  "big_sigma0 x = word_rotr 2 x XOR word_rotr 13 x XOR word_rotr 22 x"

definition big_sigma1 :: "w32 \<Rightarrow> w32" where
  "big_sigma1 x = word_rotr 6 x XOR word_rotr 11 x XOR word_rotr 25 x"

definition small_sigma0 :: "w32 \<Rightarrow> w32" where
  "small_sigma0 x = word_rotr 7 x XOR word_rotr 18 x XOR drop_bit 3 x"

definition small_sigma1 :: "w32 \<Rightarrow> w32" where
  "small_sigma1 x = word_rotr 17 x XOR word_rotr 19 x XOR drop_bit 10 x"

text \<open>
  The round constants (the first 32 bits of the fractional parts of the cube roots of the
  first 64 primes) and the initial hash value (likewise, of the square roots of the first
  8 primes), in decimal.
\<close>

definition sha_K :: "w32 list" where
  "sha_K =
   [1116352408, 1899447441, 3049323471, 3921009573, 961987163, 1508970993, 2453635748, 2870763221,
    3624381080, 310598401, 607225278, 1426881987, 1925078388, 2162078206, 2614888103, 3248222580,
    3835390401, 4022224774, 264347078, 604807628, 770255983, 1249150122, 1555081692, 1996064986,
    2554220882, 2821834349, 2952996808, 3210313671, 3336571891, 3584528711, 113926993, 338241895,
    666307205, 773529912, 1294757372, 1396182291, 1695183700, 1986661051, 2177026350, 2456956037,
    2730485921, 2820302411, 3259730800, 3345764771, 3516065817, 3600352804, 4094571909, 275423344,
    430227734, 506948616, 659060556, 883997877, 958139571, 1322822218, 1537002063, 1747873779,
    1955562222, 2024104815, 2227730452, 2361852424, 2428436474, 2756734187, 3204031479, 3329325298]"

definition sha_H0 :: "w32 list" where
  "sha_H0 = [1779033703, 3144134277, 1013904242, 2773480762,
             1359893119, 2600822924, 528734635, 1541459225]"

definition be64 :: "nat \<Rightarrow> byte list" where
  "be64 n = (let w = (word_of_nat n :: 64 word)
             in map (\<lambda>i. ucast (drop_bit (8 * (7 - i)) w)) [0..<8])"

definition sha_pad :: "byte list \<Rightarrow> byte list" where
  "sha_pad m = m @ [0x80] @ replicate ((119 - length m mod 64) mod 64) 0 @ be64 (8 * length m)"

fun be_words :: "byte list \<Rightarrow> w32 list" where
  "be_words (a # b # c # d # r) =
     (push_bit 24 (ucast a) OR push_bit 16 (ucast b) OR push_bit 8 (ucast c) OR ucast d)
       # be_words r"
| "be_words _ = []"

definition be_bytes :: "w32 \<Rightarrow> byte list" where
  "be_bytes w = [ucast (drop_bit 24 w), ucast (drop_bit 16 w), ucast (drop_bit 8 w), ucast w]"

definition sha_blocks :: "w32 list \<Rightarrow> w32 list list" where
  "sha_blocks ws = map (\<lambda>i. take 16 (drop (16 * i) ws)) [0..<length ws div 16]"

fun sched_ext :: "nat \<Rightarrow> w32 list \<Rightarrow> w32 list" where
  "sched_ext 0 w = w"
| "sched_ext (Suc n) w =
     (let l = length w in
      sched_ext n (w @ [small_sigma1 (w ! (l - 2)) + w ! (l - 7)
                          + small_sigma0 (w ! (l - 15)) + w ! (l - 16)]))"

fun sha_round :: "w32 list \<Rightarrow> w32 \<times> w32 \<Rightarrow> w32 list" where
  "sha_round [a, b, c, d, e, f, g, h] (k, w) =
     (let t1 = h + big_sigma1 e + sha_ch e f g + k + w;
          t2 = big_sigma0 a + sha_maj a b c
      in [t1 + t2, a, b, c, d + t1, e, f, g])"
| "sha_round st _ = st"

definition sha_compress :: "w32 list \<Rightarrow> w32 list \<Rightarrow> w32 list" where
  "sha_compress H blk = map2 (+) H (foldl sha_round H (zip sha_K (sched_ext 48 blk)))"

definition sha256 :: "byte list \<Rightarrow> byte list" where
  "sha256 m =
     concat (map be_bytes (foldl sha_compress sha_H0 (sha_blocks (be_words (sha_pad m)))))"

subsection \<open>hashPassword\<close>

text \<open>
  \<^verbatim>\<open>crypto.createHash('sha256').update(password).digest('hex')\<close>. The \<^verbatim>\<open>update\<close> call
  accepts a string (or a buffer, which a JSON body cannot hold) and throws a
  \<^verbatim>\<open>TypeError\<close> with code \<^verbatim>\<open>ERR_INVALID_ARG_TYPE\<close> on every other value.
\<close>

fun hashPassword :: "jsval \<Rightarrow> js_error + string" where
  "hashPassword (JStr password) = Inr (to_hex (sha256 (utf8_bytes password)))"
| "hashPassword _ = Inl type_error"

section \<open>The Date object\<close>

text \<open>
  Time values are integral milliseconds since the epoch; an invalid date (\<^verbatim>\<open>NaN\<close>) is
  \<open>None\<close>. The functions below are the abstract operations of ECMA-262 (section
  "Date Objects"), under their names there. The local time zone of the process is a
  parameter: its offset in force at a UTC instant, and the offset in force at a local
  wall-clock time.
\<close>

definition msPerDay :: int where
  "msPerDay = 86400000"

definition Day :: "int \<Rightarrow> int" where
  "Day t = t div msPerDay"

definition TimeWithinDay :: "int \<Rightarrow> int" where
  "TimeWithinDay t = t mod msPerDay"

definition DaysInYear :: "int \<Rightarrow> int" where
  "DaysInYear y =
     (if y mod 4 \<noteq> 0 then 365
      else if y mod 100 \<noteq> 0 then 366
      else if y mod 400 \<noteq> 0 then 365
      else 366)"

definition DayFromYear :: "int \<Rightarrow> int" where
  "DayFromYear y =
     365 * (y - 1970) + (y - 1969) div 4 - (y - 1901) div 100 + (y - 1601) div 400"

text \<open>
  The largest year whose first day is not after \<open>t\<close>, computed from an estimate that is
  off by at most one year (\<open>146097\<close> days make \<open>400\<close> years).
\<close>

definition YearFromTime :: "int \<Rightarrow> int" where
  "YearFromTime t =
     (let d = Day t; y = 1970 + (400 * d) div 146097
      in if d < DayFromYear y then y - 1
         else if DayFromYear (y + 1) \<le> d then y + 1
         else y)"

definition InLeapYear :: "int \<Rightarrow> int" where
  "InLeapYear t = (if DaysInYear (YearFromTime t) = 366 then 1 else 0)"

definition DayWithinYear :: "int \<Rightarrow> int" where
  "DayWithinYear t = Day t - DayFromYear (YearFromTime t)"

definition MonthFromTime :: "int \<Rightarrow> int" where
  "MonthFromTime t =
     (let d = DayWithinYear t; l = InLeapYear t
      in if d < 31 then 0
         else if d < 59 + l then 1
         else if d < 90 + l then 2
         else if d < 120 + l then 3
         else if d < 151 + l then 4
         else if d < 181 + l then 5
         else if d < 212 + l then 6
         else if d < 243 + l then 7
         else if d < 273 + l then 8
         else if d < 304 + l then 9
         else if d < 334 + l then 10
         else 11)"

text \<open>Days of the year before month \<open>m\<close> (0 is January); \<open>l\<close> is 1 in a leap year.\<close>

definition days_before_month :: "int \<Rightarrow> int \<Rightarrow> int" where
  "days_before_month m l =
     (if m = 0 then 0
      else if m = 1 then 31
      else if m = 2 then 59 + l
      else if m = 3 then 90 + l
      else if m = 4 then 120 + l
      else if m = 5 then 151 + l
      else if m = 6 then 181 + l
      else if m = 7 then 212 + l
      else if m = 8 then 243 + l
      else if m = 9 then 273 + l
      else if m = 10 then 304 + l
      else 334 + l)"

definition DateFromTime :: "int \<Rightarrow> int" where
  "DateFromTime t =
     DayWithinYear t - days_before_month (MonthFromTime t) (InLeapYear t) + 1"

definition HourFromTime :: "int \<Rightarrow> int" where
  "HourFromTime t = (t div 3600000) mod 24"

definition MinFromTime :: "int \<Rightarrow> int" where
  "MinFromTime t = (t div 60000) mod 60"

definition SecFromTime :: "int \<Rightarrow> int" where
  "SecFromTime t = (t div 1000) mod 60"

definition msFromTime :: "int \<Rightarrow> int" where
  "msFromTime t = t mod 1000"

definition MakeDay :: "int \<Rightarrow> int \<Rightarrow> int \<Rightarrow> int" where
  "MakeDay year month date =
     (let ym = year + month div 12; mn = month mod 12
      in DayFromYear ym
           + days_before_month mn (if DaysInYear ym = 366 then 1 else 0) + date - 1)"

definition MakeDate :: "int \<Rightarrow> int \<Rightarrow> int" where
  "MakeDate day time = day * msPerDay + time"

definition TimeClip :: "int \<Rightarrow> int option" where
  "TimeClip t = (if \<bar>t\<bar> \<le> 8640000000000000 then Some t else None)"

record timezone =
  tza_utc :: "int \<Rightarrow> int"
  tza_local :: "int \<Rightarrow> int"

definition LocalTime :: "timezone \<Rightarrow> int \<Rightarrow> int" where
  "LocalTime tz t = t + tza_utc tz t"

definition UTC :: "timezone \<Rightarrow> int \<Rightarrow> int" where
  "UTC tz t = t - tza_local tz t"

definition date_getDate :: "timezone \<Rightarrow> int option \<Rightarrow> int option" where
  "date_getDate tz tv = map_option (\<lambda>t. DateFromTime (LocalTime tz t)) tv"

definition date_setDate :: "timezone \<Rightarrow> int option \<Rightarrow> int option \<Rightarrow> int option" where
  "date_setDate tz tv date =
     (case tv of
        None \<Rightarrow> None
      | Some t0 \<Rightarrow>
          (case date of
             None \<Rightarrow> None
           | Some dt \<Rightarrow>
               (let t = LocalTime tz t0;
                    newDate = MakeDate (MakeDay (YearFromTime t) (MonthFromTime t) dt)
                                       (TimeWithinDay t)
                in TimeClip (UTC tz newDate))))"

definition pad2 :: "int \<Rightarrow> string" where
  "pad2 n = padStart 2 CHR ''0'' (dec (nat n))"

definition iso_year :: "int \<Rightarrow> string" where
  "iso_year y =
     (if 0 \<le> y \<and> y \<le> 9999 then padStart 4 CHR ''0'' (dec (nat y))
      else (if y < 0 then CHR ''-'' else CHR ''+'') # padStart 6 CHR ''0'' (dec (nat \<bar>y\<bar>)))"

definition date_toISOString :: "int option \<Rightarrow> js_error + string" where
  "date_toISOString tv =
     (case tv of
        None \<Rightarrow> Inl range_error
      | Some t \<Rightarrow>
          Inr (iso_year (YearFromTime t) @ ''-'' @ pad2 (MonthFromTime t + 1) @ ''-''
               @ pad2 (DateFromTime t) @ ''T'' @ pad2 (HourFromTime t) @ '':''
               @ pad2 (MinFromTime t) @ '':'' @ pad2 (SecFromTime t) @ ''.''
               @ padStart 3 CHR ''0'' (dec (nat (msFromTime t))) @ ''Z''))"

text \<open>The shape of a MySQL DATETIME literal, \<^verbatim>\<open>YYYY-MM-DD HH:MM:SS\<close>.\<close>

definition is_digit :: "char \<Rightarrow> bool" where
  "is_digit c = (c \<in> set ''0123456789'')"

fun is_mysql_datetime :: "string \<Rightarrow> bool" where
  "is_mysql_datetime [y1, y2, y3, y4, s1, m1, m2, s2, d1, d2, s3, h1, h2, s4, n1, n2, s5, c1, c2] =
     (list_all is_digit [y1, y2, y3, y4, m1, m2, d1, d2, h1, h2, n1, n2, c1, c2]
      \<and> s1 = CHR ''-'' \<and> s2 = CHR ''-'' \<and> s3 = CHR '' '' \<and> s4 = CHR '':'' \<and> s5 = CHR '':'')"
| "is_mysql_datetime _ = False"

section \<open>Configuration and routes\<close>

text \<open>
  \<^verbatim>\<open>process.env\<close> after \<^verbatim>\<open>dotenv\<close> has loaded the file. The port, the database credentials
  and the admin token are read from it; the path prefix is a constant of the source.
\<close>

type_synonym environ = "string \<rightharpoonup> string"

definition API_PREFIX :: string where
  "API_PREFIX = ''/api''"

record config =
  port :: jsval
  db_host :: "string option"
  db_user :: "string option"
  db_password :: "string option"
  db_database :: "string option"
  ADMIN_TOKEN_DUMMY :: "string option"

definition load_config :: "environ \<Rightarrow> config" where
  "load_config env =
     \<lparr> port = (case env ''PORT'' of
                 None \<Rightarrow> JNum 3000
               | Some p \<Rightarrow> if p = [] then JNum 3000 else JStr p),
       db_host = env ''MYSQL_HOST'',
       db_user = env ''MYSQL_USER'',
       db_password = env ''MYSQL_PASSWORD'',
       db_database = env ''MYSQL_DATABASE'',
       ADMIN_TOKEN_DUMMY = env ''API_DUMMY_TOKEN'' \<rparr>"

datatype http_method = GET | POST

datatype endpoint = AdminRegister | AdminLogin | AdminDashboard | UserRegister

record route =
  route_method :: http_method
  route_path :: string
  route_auth :: bool
  route_endpoint :: endpoint

text \<open>The four registrations \<^verbatim>\<open>app.post\<close> / \<^verbatim>\<open>app.get\<close>, in source order.\<close>

definition routes :: "route list" where
  "routes =
     [\<lparr> route_method = POST, route_path = API_PREFIX @ ''/admin/register'',
         route_auth = False, route_endpoint = AdminRegister \<rparr>,
      \<lparr> route_method = POST, route_path = API_PREFIX @ ''/admin/login'',
         route_auth = False, route_endpoint = AdminLogin \<rparr>,
      \<lparr> route_method = GET, route_path = API_PREFIX @ ''/admin/dashboard'',
         route_auth = True, route_endpoint = AdminDashboard \<rparr>,
      \<lparr> route_method = POST, route_path = API_PREFIX @ ''/user/register'',
         route_auth = False, route_endpoint = UserRegister \<rparr>]"

text \<open>The started server: what it read from the environment, and its route table.\<close>

record server =
  server_config :: config
  server_routes :: "route list"

definition start_server :: "environ \<Rightarrow> server" where
  "start_server env = \<lparr> server_config = load_config env, server_routes = routes \<rparr>"

text \<open>The interface table of the specification: method and endpoint path.\<close>

definition interface_table :: "(http_method \<times> string) list" where
  "interface_table =
     [(POST, ''/admin/register''), (POST, ''/admin/login''),
      (GET, ''/admin/dashboard''), (POST, ''/user/register'')]"

section \<open>Responses\<close>

record user_view =
  uv_id :: nat
  uv_first_name :: jsval
  uv_last_name :: jsval
  uv_email :: jsval

record key_view =
  kv_id :: nat
  kv_user_id :: nat
  kv_api_key :: string
  kv_expires_at :: string

text \<open>
  The JSON bodies the handlers send: a message; the login body (\<^verbatim>\<open>JSON.stringify\<close> drops
  the token when it is \<^verbatim>\<open>undefined\<close>); the two dashboard lists; the registration body
  with message, apiKey and expiresAt.
\<close>

datatype body =
    Message string
  | LoginBody string "string option"
  | DashboardBody "user_view list" "key_view list"
  | RegisteredBody string string string

record response =
  status :: nat
  body :: body

definition respond :: "nat \<Rightarrow> body \<Rightarrow> response" where
  "respond code b = \<lparr> status = code, body = b \<rparr>"

section \<open>The admin authentication middleware\<close>

datatype mw_result = Respond response | Next

definition adminAuthMiddleware :: "string option \<Rightarrow> string option \<Rightarrow> mw_result" where
  "adminAuthMiddleware admin_token authorization =
     (case authorization of
        None \<Rightarrow> Respond (respond 401 (Message ''Autentikasi diperlukan.''))
      | Some authHeader \<Rightarrow>
          if authHeader = [] \<or> \<not> startsWith authHeader ''Bearer ''
          then Respond (respond 401 (Message ''Autentikasi diperlukan.''))
          else (let token = nth_opt (split_on CHR '' '' authHeader) 1
                in if token = admin_token then Next
                   else Respond (respond 403 (Message ''Token admin tidak valid.''))))"

section \<open>The store and the connection pool\<close>

text \<open>
  The three tables, as the queries of the source see them. The columns a request fills
  hold the bound parameter as it was passed (no SQL coercion or collation is modelled:
  two values are the same key when they are equal). \<^verbatim>\<open>created_at\<close> is assigned by the
  store from its own clock.
\<close>

record admin_row =
  admin_id :: nat
  admin_email :: jsval
  password_hash :: string

record user_row =
  user_id :: nat
  first_name :: jsval
  last_name :: jsval
  user_email :: jsval
  user_created_at :: int

record api_key_row =
  key_id :: nat
  key_user_id :: nat
  api_key :: string
  expires_at :: string
  key_created_at :: int

record tables =
  admins :: "admin_row list"
  users :: "user_row list"
  api_keys :: "api_key_row list"

text \<open>
  A connection to the store. While a transaction is open on it, it holds the rows that
  the transaction has inserted and not yet committed.
\<close>

record pending_rows =
  new_admins :: "admin_row list"
  new_users :: "user_row list"
  new_keys :: "api_key_row list"

record connection =
  tx :: "pending_rows option"

text \<open>
  What a handler can observe or change outside itself, beside the tables: the
  auto-increment counters (not transactional), the store's clock, the connections of
  the pool (how many are checked out, and the idle ones, each in the state in which it
  was released), the process clock and entropy source, the failures the store is about
  to raise (one entry per call of the store or the pool, in call order; \<open>None\<close> or a
  missing entry lets the call run), and the log of the calls made so far.
\<close>

datatype event =
    EvHash | EvRandomBytes | EvPoolQuery | EvGetConnection | EvBeginTransaction
  | EvConnQuery | EvCommit | EvRollback | EvRelease | EvConsoleError

record world =
  db :: tables
  next_admin_id :: nat
  next_user_id :: nat
  next_key_id :: nat
  db_clock :: int
  pool_busy :: nat
  idle :: "connection list"
  faults :: "js_error option list"
  js_clock :: int
  entropy :: "nat \<Rightarrow> byte"
  entropy_pos :: nat
  trace :: "event list"

definition log_event :: "event \<Rightarrow> world \<Rightarrow> world" where
  "log_event ev w = w\<lparr> trace := trace w @ [ev] \<rparr>"

text \<open>Entering a call of the store or the pool: it is logged, and may be made to fail.\<close>

definition db_call :: "event \<Rightarrow> world \<Rightarrow> js_error option \<times> world" where
  "db_call ev w =
     (let w1 = log_event ev w
      in case faults w1 of
           [] \<Rightarrow> (None, w1)
         | f # fs \<Rightarrow> (f, w1\<lparr> faults := fs \<rparr>))"

subsection \<open>Queries on a set of tables\<close>

text \<open>
  A bound value is compared with a column by equality. This is the store's comparison
  for strings; the conversions it applies to a number or a boolean are not modelled.
\<close>

definition tbl_admin_hashes :: "jsval \<Rightarrow> tables \<Rightarrow> string list" where
  "tbl_admin_hashes email t = map password_hash (filter (\<lambda>r. admin_email r = email) (admins t))"

text \<open>\<^verbatim>\<open>ORDER BY created_at DESC\<close>; the order among equal timestamps is the store's choice.\<close>

definition tbl_users_view :: "tables \<Rightarrow> user_view list" where
  "tbl_users_view t =
     map (\<lambda>r. \<lparr> uv_id = user_id r, uv_first_name = first_name r, uv_last_name = last_name r,
                uv_email = user_email r \<rparr>)
         (rev (sort_key user_created_at (users t)))"

definition tbl_keys_view :: "tables \<Rightarrow> key_view list" where
  "tbl_keys_view t =
     map (\<lambda>r. \<lparr> kv_id = key_id r, kv_user_id = key_user_id r, kv_api_key = api_key r,
                kv_expires_at = expires_at r \<rparr>)
         (rev (sort_key key_created_at (api_keys t)))"

subsection \<open>A connection and its transaction\<close>

text \<open>
  The tables as the statements of a connection see them: the committed rows, and the
  rows pending in its own transaction.
\<close>

definition with_pending :: "pending_rows \<Rightarrow> tables \<Rightarrow> tables" where
  "with_pending p t =
     t\<lparr> admins := admins t @ new_admins p, users := users t @ new_users p,
        api_keys := api_keys t @ new_keys p \<rparr>"

definition conn_view :: "connection \<Rightarrow> world \<Rightarrow> tables" where
  "conn_view c w = (case tx c of None \<Rightarrow> db w | Some p \<Rightarrow> with_pending p (db w))"

text \<open>
  A row inserted on a connection is pending when a transaction is open on it, and
  committed at once otherwise.
\<close>

definition conn_add_admin :: "admin_row \<Rightarrow> connection \<Rightarrow> world \<Rightarrow> connection \<times> world" where
  "conn_add_admin row c w =
     (case tx c of
        None \<Rightarrow> (c, w\<lparr> db := (db w)\<lparr> admins := admins (db w) @ [row] \<rparr> \<rparr>)
      | Some p \<Rightarrow> (c\<lparr> tx := Some (p\<lparr> new_admins := new_admins p @ [row] \<rparr>) \<rparr>, w))"

definition conn_add_user :: "user_row \<Rightarrow> connection \<Rightarrow> world \<Rightarrow> connection \<times> world" where
  "conn_add_user row c w =
     (case tx c of
        None \<Rightarrow> (c, w\<lparr> db := (db w)\<lparr> users := users (db w) @ [row] \<rparr> \<rparr>)
      | Some p \<Rightarrow> (c\<lparr> tx := Some (p\<lparr> new_users := new_users p @ [row] \<rparr>) \<rparr>, w))"

definition conn_add_key :: "api_key_row \<Rightarrow> connection \<Rightarrow> world \<Rightarrow> connection \<times> world" where
  "conn_add_key row c w =
     (case tx c of
        None \<Rightarrow> (c, w\<lparr> db := (db w)\<lparr> api_keys := api_keys (db w) @ [row] \<rparr> \<rparr>)
      | Some p \<Rightarrow> (c\<lparr> tx := Some (p\<lparr> new_keys := new_keys p @ [row] \<rparr>) \<rparr>, w))"

subsection \<open>The pool\<close>

text \<open>
  The pool hands out the idle connection released last, in the state in which it was
  released, and opens a new connection when none is idle. A connection returned to the
  pool is kept as it is: a transaction still open on it is neither committed nor rolled
  back, and is still open when the connection is handed out again.
\<close>

definition pool_take :: "world \<Rightarrow> connection \<times> world" where
  "pool_take w = (case idle w of [] \<Rightarrow> (\<lparr> tx = None \<rparr>, w) | c # cs \<Rightarrow> (c, w\<lparr> idle := cs \<rparr>))"

definition pool_put :: "connection \<Rightarrow> world \<Rightarrow> world" where
  "pool_put c w = w\<lparr> idle := c # idle w \<rparr>"

subsection \<open>\<^verbatim>\<open>pool.query\<close>: one statement on a connection of the pool\<close>

text \<open>
  \<^verbatim>\<open>pool.query\<close> takes a connection from the pool, runs the statement on it and returns
  it to the pool. On a connection with no transaction open the statement is committed
  at once.
\<close>

definition pool_insert_admin :: "jsval \<Rightarrow> string \<Rightarrow> world \<Rightarrow> (js_error + unit) \<times> world" where
  "pool_insert_admin email pw_hash w =
     (case db_call EvPoolQuery w of
        (Some err, w1) \<Rightarrow> (Inl err, w1)
      | (None, w1) \<Rightarrow>
          (case pool_take w1 of
             (c, w2) \<Rightarrow>
               if email \<in> set (map admin_email (admins (conn_view c w2)))
               then (Inl dup_entry, pool_put c w2)
               else (case conn_add_admin
                            \<lparr> admin_id = next_admin_id w2, admin_email = email,
                              password_hash = pw_hash \<rparr>
                            c (w2\<lparr> next_admin_id := Suc (next_admin_id w2) \<rparr>) of
                       (c', w3) \<Rightarrow> (Inr (), pool_put c' w3))))"

definition pool_select_admin_hashes :: "jsval \<Rightarrow> world \<Rightarrow> (js_error + string list) \<times> world" where
  "pool_select_admin_hashes email w =
     (case db_call EvPoolQuery w of
        (Some err, w1) \<Rightarrow> (Inl err, w1)
      | (None, w1) \<Rightarrow>
          (case pool_take w1 of
             (c, w2) \<Rightarrow> (Inr (tbl_admin_hashes email (conn_view c w2)), pool_put c w2)))"

definition pool_select_users :: "world \<Rightarrow> (js_error + user_view list) \<times> world" where
  "pool_select_users w =
     (case db_call EvPoolQuery w of
        (Some err, w1) \<Rightarrow> (Inl err, w1)
      | (None, w1) \<Rightarrow>
          (case pool_take w1 of
             (c, w2) \<Rightarrow> (Inr (tbl_users_view (conn_view c w2)), pool_put c w2)))"

definition pool_select_keys :: "world \<Rightarrow> (js_error + key_view list) \<times> world" where
  "pool_select_keys w =
     (case db_call EvPoolQuery w of
        (Some err, w1) \<Rightarrow> (Inl err, w1)
      | (None, w1) \<Rightarrow>
          (case pool_take w1 of
             (c, w2) \<Rightarrow> (Inr (tbl_keys_view (conn_view c w2)), pool_put c w2)))"

subsection \<open>A checked-out connection\<close>

definition pool_getConnection :: "world \<Rightarrow> (js_error + connection) \<times> world" where
  "pool_getConnection w =
     (case db_call EvGetConnection w of
        (Some err, w1) \<Rightarrow> (Inl err, w1)
      | (None, w1) \<Rightarrow>
          (case pool_take w1 of
             (c, w2) \<Rightarrow> (Inr c, w2\<lparr> pool_busy := Suc (pool_busy w2) \<rparr>)))"

text \<open>
  \<^verbatim>\<open>beginTransaction\<close> sends \<^verbatim>\<open>START TRANSACTION\<close>, which first commits a transaction
  still open on the connection. A call that fails leaves the connection as it was.
\<close>

definition conn_beginTransaction ::
  "connection \<Rightarrow> world \<Rightarrow> (js_error + unit) \<times> connection \<times> world" where
  "conn_beginTransaction c w =
     (case db_call EvBeginTransaction w of
        (Some err, w1) \<Rightarrow> (Inl err, c, w1)
      | (None, w1) \<Rightarrow>
          (Inr (), c\<lparr> tx := Some \<lparr> new_admins = [], new_users = [], new_keys = [] \<rparr> \<rparr>,
           w1\<lparr> db := conn_view c w1 \<rparr>))"

definition conn_insert_user ::
  "jsval \<Rightarrow> jsval \<Rightarrow> jsval \<Rightarrow> connection \<Rightarrow> world \<Rightarrow> (js_error + nat) \<times> connection \<times> world" where
  "conn_insert_user fn ln email c w =
     (case db_call EvConnQuery w of
        (Some err, w1) \<Rightarrow> (Inl err, c, w1)
      | (None, w1) \<Rightarrow>
          if email \<in> set (map user_email (users (conn_view c w1))) then (Inl dup_entry, c, w1)
          else (case conn_add_user
                       \<lparr> user_id = next_user_id w1, first_name = fn, last_name = ln,
                         user_email = email, user_created_at = db_clock w1 \<rparr>
                       c (w1\<lparr> next_user_id := Suc (next_user_id w1) \<rparr>) of
                  (c', w2) \<Rightarrow> (Inr (next_user_id w1), c', w2)))"

definition conn_insert_key ::
  "nat \<Rightarrow> string \<Rightarrow> string \<Rightarrow> connection \<Rightarrow> world \<Rightarrow> (js_error + unit) \<times> connection \<times> world" where
  "conn_insert_key uid k exp c w =
     (case db_call EvConnQuery w of
        (Some err, w1) \<Rightarrow> (Inl err, c, w1)
      | (None, w1) \<Rightarrow>
          if k \<in> set (map api_key (api_keys (conn_view c w1))) then (Inl dup_entry, c, w1)
          else (case conn_add_key
                       \<lparr> key_id = next_key_id w1, key_user_id = uid, api_key = k,
                         expires_at = exp, key_created_at = db_clock w1 \<rparr>
                       c (w1\<lparr> next_key_id := Suc (next_key_id w1) \<rparr>) of
                  (c', w2) \<Rightarrow> (Inr (), c', w2)))"

text \<open>\<^verbatim>\<open>commit\<close> publishes the pending rows and closes the transaction.\<close>

definition conn_commit :: "connection \<Rightarrow> world \<Rightarrow> (js_error + unit) \<times> connection \<times> world" where
  "conn_commit c w =
     (case db_call EvCommit w of
        (Some err, w1) \<Rightarrow> (Inl err, c, w1)
      | (None, w1) \<Rightarrow> (Inr (), c\<lparr> tx := None \<rparr>, w1\<lparr> db := conn_view c w1 \<rparr>))"

text \<open>
  \<^verbatim>\<open>rollback\<close> drops the pending rows and closes the transaction; when it fails, the
  transaction stays open.
\<close>

definition conn_rollback :: "connection \<Rightarrow> world \<Rightarrow> (js_error + unit) \<times> connection \<times> world" where
  "conn_rollback c w =
     (case db_call EvRollback w of
        (Some err, w1) \<Rightarrow> (Inl err, c, w1)
      | (None, w1) \<Rightarrow> (Inr (), c\<lparr> tx := None \<rparr>, w1))"

text \<open>\<^verbatim>\<open>release\<close> returns the connection to the pool.\<close>

definition conn_release :: "connection \<Rightarrow> world \<Rightarrow> world" where
  "conn_release c w = pool_put c ((log_event EvRelease w)\<lparr> pool_busy := pool_busy w - 1 \<rparr>)"

section \<open>generateApiKey and getExpirationDate\<close>

definition randomBytes :: "nat \<Rightarrow> world \<Rightarrow> byte list \<times> world" where
  "randomBytes n w =
     (map (entropy w) [entropy_pos w ..< entropy_pos w + n],
      (log_event EvRandomBytes w)\<lparr> entropy_pos := entropy_pos w + n \<rparr>)"

definition generateApiKey :: "world \<Rightarrow> string \<times> world" where
  "generateApiKey w = (case randomBytes 32 w of (bs, w1) \<Rightarrow> (to_hex bs, w1))"

definition new_Date :: "world \<Rightarrow> int option" where
  "new_Date w = TimeClip (js_clock w)"

text \<open>
  \<open>days\<close> is the argument as passed; \<open>None\<close> is a call without it, which takes the
  default \<open>30\<close>. \<^verbatim>\<open>toISOString\<close> throws on an invalid date.
\<close>

definition getExpirationDate :: "timezone \<Rightarrow> int option \<Rightarrow> world \<Rightarrow> js_error + string" where
  "getExpirationDate tz days_arg w =
     (let days = (case days_arg of None \<Rightarrow> 30 | Some d \<Rightarrow> d);
          date = new_Date w;
          date' = date_setDate tz date (map_option (\<lambda>g. g + days) (date_getDate tz date))
      in case date_toISOString date' of
           Inl err \<Rightarrow> Inl err
         | Inr isoString \<Rightarrow> Inr (replace_first CHR ''T'' CHR '' '' (take 19 isoString)))"

section \<open>The route handlers\<close>

subsection \<open>POST /api/admin/register\<close>

definition admin_register_catch :: "js_error \<Rightarrow> world \<Rightarrow> response \<times> world" where
  "admin_register_catch err w =
     (if err_code err = Some ''ER_DUP_ENTRY''
      then (respond 409 (Message ''Email admin sudah terdaftar.''), w)
      else (respond 500 (Message ''Gagal mendaftarkan admin.''), log_event EvConsoleError w))"

definition admin_register :: "json_object \<Rightarrow> world \<Rightarrow> response \<times> world" where
  "admin_register req_body w =
     (let email = js_get req_body ''email''; password = js_get req_body ''password''
      in if \<not> truthy email \<or> \<not> truthy password
         then (respond 400 (Message ''Email dan password diperlukan.''), w)
         else (let w1 = log_event EvHash w
               in case hashPassword password of
                    Inl err \<Rightarrow> admin_register_catch err w1
                  | Inr pw_hash \<Rightarrow>
                      (case pool_insert_admin email pw_hash w1 of
                         (Inl err, w2) \<Rightarrow> admin_register_catch err w2
                       | (Inr _, w2) \<Rightarrow>
                           (respond 201 (Message ''Admin berhasil didaftarkan.''), w2))))"

subsection \<open>POST /api/admin/login\<close>

definition admin_login_catch :: "js_error \<Rightarrow> world \<Rightarrow> response \<times> world" where
  "admin_login_catch err w =
     (respond 500 (Message ''Gagal login.''), log_event EvConsoleError w)"

definition admin_login :: "config \<Rightarrow> json_object \<Rightarrow> world \<Rightarrow> response \<times> world" where
  "admin_login cfg req_body w =
     (let email = js_get req_body ''email''; password = js_get req_body ''password''
      in if \<not> truthy email \<or> \<not> truthy password
         then (respond 400 (Message ''Email dan password diperlukan.''), w)
         else (case pool_select_admin_hashes email w of
                 (Inl err, w1) \<Rightarrow> admin_login_catch err w1
               | (Inr rows, w1) \<Rightarrow>
                   (case rows of
                      [] \<Rightarrow> (respond 401 (Message ''Email atau password salah.''), w1)
                    | admin_hash # _ \<Rightarrow>
                        (let w2 = log_event EvHash w1
                         in case hashPassword password of
                              Inl err \<Rightarrow> admin_login_catch err w2
                            | Inr inputHash \<Rightarrow>
                                if inputHash = admin_hash
                                then (respond 200
                                        (LoginBody ''Login berhasil.'' (ADMIN_TOKEN_DUMMY cfg)), w2)
                                else (respond 401 (Message ''Email atau password salah.''), w2)))))"

subsection \<open>GET /api/admin/dashboard\<close>

definition admin_dashboard_catch :: "js_error \<Rightarrow> world \<Rightarrow> response \<times> world" where
  "admin_dashboard_catch err w =
     (respond 500 (Message ''Gagal mengambil data dasbor.''), log_event EvConsoleError w)"

definition admin_dashboard :: "world \<Rightarrow> response \<times> world" where
  "admin_dashboard w =
     (case pool_select_users w of
        (Inl err, w1) \<Rightarrow> admin_dashboard_catch err w1
      | (Inr us, w1) \<Rightarrow>
          (case pool_select_keys w1 of
             (Inl err, w2) \<Rightarrow> admin_dashboard_catch err w2
           | (Inr ks, w2) \<Rightarrow> (respond 200 (DashboardBody us ks), w2)))"

text \<open>The route: the middleware first, the handler when the middleware calls \<^verbatim>\<open>next()\<close>.\<close>

definition dashboard_route :: "config \<Rightarrow> string option \<Rightarrow> world \<Rightarrow> response \<times> world" where
  "dashboard_route cfg authorization w =
     (case adminAuthMiddleware (ADMIN_TOKEN_DUMMY cfg) authorization of
        Respond r \<Rightarrow> (r, w)
      | Next \<Rightarrow> admin_dashboard w)"

subsection \<open>POST /api/user/register\<close>

text \<open>
  The \<^verbatim>\<open>try\<close> block: its outcome (the error thrown, or the key and its expiry), the value
  of the variable \<^verbatim>\<open>connection\<close> when the block is left, and the world.
\<close>

definition user_register_try ::
  "timezone \<Rightarrow> jsval \<Rightarrow> jsval \<Rightarrow> jsval \<Rightarrow> world
     \<Rightarrow> (js_error + string \<times> string) \<times> connection option \<times> world" where
  "user_register_try tz fn ln email w =
     (case pool_getConnection w of
        (Inl err, w1) \<Rightarrow> (Inl err, None, w1)
      | (Inr c0, w1) \<Rightarrow>
     (case conn_beginTransaction c0 w1 of
        (Inl err, c1, w2) \<Rightarrow> (Inl err, Some c1, w2)
      | (Inr _, c1, w2) \<Rightarrow>
     (case conn_insert_user fn ln email c1 w2 of
        (Inl err, c2, w3) \<Rightarrow> (Inl err, Some c2, w3)
      | (Inr newUserId, c2, w3) \<Rightarrow>
     (case generateApiKey w3 of
        (apiKey, w4) \<Rightarrow>
     (case getExpirationDate tz (Some 30) w4 of
        Inl err \<Rightarrow> (Inl err, Some c2, w4)
      | Inr expiresAt \<Rightarrow>
     (case conn_insert_key newUserId apiKey expiresAt c2 w4 of
        (Inl err, c3, w5) \<Rightarrow> (Inl err, Some c3, w5)
      | (Inr _, c3, w5) \<Rightarrow>
     (case conn_commit c3 w5 of
        (Inl err, c4, w6) \<Rightarrow> (Inl err, Some c4, w6)
      | (Inr _, c4, w6) \<Rightarrow> (Inr (apiKey, expiresAt), Some c4, w6))))))))"

text \<open>
  The \<^verbatim>\<open>catch\<close> block. When \<^verbatim>\<open>rollback\<close> itself throws, the block is left at once and no
  response is sent (\<open>None\<close>).
\<close>

definition user_register_respond :: "js_error \<Rightarrow> world \<Rightarrow> response \<times> world" where
  "user_register_respond err w =
     (if err_code err = Some ''ER_DUP_ENTRY''
      then (respond 409 (Message ''Email pengguna sudah terdaftar.''), w)
      else (respond 500 (Message ''Gagal registrasi pengguna.''), log_event EvConsoleError w))"

definition user_register_catch ::
  "connection option \<Rightarrow> js_error \<Rightarrow> world \<Rightarrow> response option \<times> connection option \<times> world" where
  "user_register_catch conn err w =
     (case conn of
        None \<Rightarrow> (case user_register_respond err w of (r, w1) \<Rightarrow> (Some r, None, w1))
      | Some c \<Rightarrow>
          (case conn_rollback c w of
             (Inl err', c1, w1) \<Rightarrow> (None, Some c1, w1)
           | (Inr _, c1, w1) \<Rightarrow>
               (case user_register_respond err w1 of (r, w2) \<Rightarrow> (Some r, Some c1, w2))))"

text \<open>The \<^verbatim>\<open>finally\<close> block.\<close>

definition user_register_finally :: "connection option \<Rightarrow> world \<Rightarrow> world" where
  "user_register_finally conn w = (case conn of None \<Rightarrow> w | Some c \<Rightarrow> conn_release c w)"

definition user_register :: "timezone \<Rightarrow> json_object \<Rightarrow> world \<Rightarrow> response option \<times> world" where
  "user_register tz req_body w =
     (let fn = js_get req_body ''first_name''; ln = js_get req_body ''last_name'';
          email = js_get req_body ''email''
      in if \<not> truthy fn \<or> \<not> truthy ln \<or> \<not> truthy email
         then (Some (respond 400 (Message ''Nama depan, nama belakang, dan email diperlukan.'')), w)
         else (case user_register_try tz fn ln email w of
                 (Inr (apiKey, expiresAt), conn, w1) \<Rightarrow>
                   (Some (respond 201
                            (RegisteredBody ''Registrasi berhasil. API Key dibuat.'' apiKey expiresAt)),
                    user_register_finally conn w1)
               | (Inl err, conn, w1) \<Rightarrow>
                   (case user_register_catch conn err w1 of
                      (r, conn', w2) \<Rightarrow> (r, user_register_finally conn' w2))))"

section \<open>The server, request after request\<close>

text \<open>
  The requests the four routes accept, and the server handling them one at a time: each
  request runs its handler to the end on the world the previous one left.
\<close>

datatype request =
    PostAdminRegister json_object
  | PostAdminLogin json_object
  | GetAdminDashboard "string option"
  | PostUserRegister json_object

definition serve :: "config \<Rightarrow> timezone \<Rightarrow> request \<Rightarrow> world \<Rightarrow> response option \<times> world" where
  "serve cfg tz req w =
     (case req of
        PostAdminRegister b \<Rightarrow> (case admin_register b w of (r, w') \<Rightarrow> (Some r, w'))
      | PostAdminLogin b \<Rightarrow> (case admin_login cfg b w of (r, w') \<Rightarrow> (Some r, w'))
      | GetAdminDashboard auth \<Rightarrow> (case dashboard_route cfg auth w of (r, w') \<Rightarrow> (Some r, w'))
      | PostUserRegister b \<Rightarrow> user_register tz b w)"


section \<open>Notions used to state the properties\<close>

text \<open>The next \<open>n\<close> calls of the store or the pool are not made to fail.\<close>

definition calm :: "nat \<Rightarrow> world \<Rightarrow> bool" where
  "calm n w = list_all (\<lambda>f. f = None) (take n (faults w))"

text \<open>The parts of the world a store call only reads.\<close>

definition env_of :: "world \<Rightarrow> int \<times> int \<times> (nat \<Rightarrow> byte) \<times> nat" where
  "env_of w = (db_clock w, js_clock w, entropy w, entropy_pos w)"

definition counters_of :: "world \<Rightarrow> nat \<times> nat \<times> nat" where
  "counters_of w = (next_admin_id w, next_user_id w, next_key_id w)"

text \<open>
  The tables of \<open>w\<close> with exactly one user row and one key row added, the key row
  carrying the new user's id.
\<close>

definition registered_tables ::
  "jsval \<Rightarrow> jsval \<Rightarrow> jsval \<Rightarrow> string \<Rightarrow> string \<Rightarrow> world \<Rightarrow> tables" where
  "registered_tables fn ln email k exp w =
     (db w)\<lparr> users := users (db w) @
                [\<lparr> user_id = next_user_id w, first_name = fn, last_name = ln,
                   user_email = email, user_created_at = db_clock w \<rparr>],
             api_keys := api_keys (db w) @
                [\<lparr> key_id = next_key_id w, key_user_id = next_user_id w, api_key = k,
                   expires_at = exp, key_created_at = db_clock w \<rparr>] \<rparr>"

text \<open>No connection waiting in the pool has a transaction left open.\<close>

definition clean_pool :: "world \<Rightarrow> bool" where
  "clean_pool w = list_all (\<lambda>c. tx c = None) (idle w)"

text \<open>The tables as the next statement sent with \<^verbatim>\<open>pool.query\<close> sees them.\<close>

definition pool_view :: "world \<Rightarrow> tables" where
  "pool_view w = conn_view (fst (pool_take w)) w"

text \<open>The admin rows pending on a connection, and: none of those pending on an idle
  connection has the given email.\<close>

definition pending_admins :: "connection \<Rightarrow> admin_row list" where
  "pending_admins c = (case tx c of None \<Rightarrow> [] | Some p \<Rightarrow> new_admins p)"



text \<open>
  What a statement that only reads leaves of the tables and the pool when it is sent
  with \<^verbatim>\<open>pool.query\<close>: the tables are the same, and so are the idle connections, a new
  connection being idle from then on when none was before.
\<close>

definition query_frame :: "world \<Rightarrow> world \<Rightarrow> bool" where
  "query_frame w w' =
     (db w' = db w \<and> (idle w' = idle w \<or> idle w' = fst (pool_take w) # tl (idle w)))"

text \<open>The text between the first and the second space of a header (to its end when
  there is no second space).\<close>

definition first_space_token :: "string \<Rightarrow> string" where
  "first_space_token h =
     takeWhile (\<lambda>c. c \<noteq> CHR '' '') (tl (dropWhile (\<lambda>c. c \<noteq> CHR '' '') h))"

text \<open>
  The UTC calendar fields of a time value, as a MySQL DATETIME literal
  \<^verbatim>\<open>YYYY-MM-DD HH:MM:SS\<close>.
\<close>

definition mysql_datetime_utc :: "int \<Rightarrow> string" where
  "mysql_datetime_utc t =
     iso_year (YearFromTime t) @ ''-'' @ pad2 (MonthFromTime t + 1) @ ''-''
     @ pad2 (DateFromTime t) @ '' '' @ pad2 (HourFromTime t) @ '':''
     @ pad2 (MinFromTime t) @ '':'' @ pad2 (SecFromTime t)"

subsection \<open>Sample data\<close>

definition utc_zone :: timezone where
  "utc_zone = \<lparr> tza_utc = (\<lambda>t. 0), tza_local = (\<lambda>t. 0) \<rparr>"

definition sample_config :: config where
  "sample_config = load_config [''PORT'' \<mapsto> ''8080'', ''API_DUMMY_TOKEN'' \<mapsto> ''s3cret'']"

definition sample_world :: world where
  "sample_world =
     \<lparr> db = \<lparr> admins = [\<lparr> admin_id = 1, admin_email = JStr ''root@example.com'',
                           password_hash =
                             ''f52fbd32b2b3b86ff88ef6c490628285f482af15ddcb29541f94bcf526a3f6c7'' \<rparr>],
              users = [\<lparr> user_id = 1, first_name = JStr ''Grace'', last_name = JStr ''Hopper'',
                          user_email = JStr ''grace@example.com'',
                          user_created_at = 1709000000 \<rparr>],
              api_keys = [\<lparr> key_id = 1, key_user_id = 1,
                             api_key = ''00112233445566778899aabbccddeeff00112233445566778899aabbccddeeff'',
                             expires_at = ''2024-03-28 02:13:20'',
                             key_created_at = 1709000000 \<rparr>] \<rparr>,
       next_admin_id = 2, next_user_id = 2, next_key_id = 2,
       db_clock = 1709312400, pool_busy = 0, idle = [], faults = [],
       js_clock = 1709312400000, entropy = (\<lambda>i. of_nat (7 * i + 3)), entropy_pos = 0,
       trace = [] \<rparr>"

definition ada_body :: json_object where
  "ada_body = [''first_name'' \<mapsto> JStr ''Ada'', ''last_name'' \<mapsto> JStr ''Lovelace'',
               ''email'' \<mapsto> JStr ''ada@example.com'']"

text \<open>The same world, with the fourth store call (the key insert) made to fail.\<close>

definition key_insert_fails :: world where
  "key_insert_fails = sample_world\<lparr> faults := [None, None, None, Some (JsError None)] \<rparr>"



text \<open>
  A zone that changes its offset: five hours behind UTC until 2024-03-10 07:00 UTC (02:00
  local time), four hours behind from then on.
\<close>

definition us_eastern_2024 :: timezone where
  "us_eastern_2024 =
     \<lparr> tza_utc = (\<lambda>t. if t < 1710054000000 then - 18000000 else - 14400000),
       tza_local = (\<lambda>t. if t < 1710036000000 then - 18000000 else - 14400000) \<rparr>"


section \<open>Verified properties\<close>

declare dec.simps [simp del]

subsection \<open>The bearer token of the middleware\<close>

lemma split_on_takeWhile:
  "split_on c s =
     takeWhile (\<lambda>x. x \<noteq> c) s #
       (case dropWhile (\<lambda>x. x \<noteq> c) s of [] \<Rightarrow> [] | _ # r \<Rightarrow> split_on c r)"
proof (induction s)
  case Nil
  show ?case by simp
next
  case (Cons x xs)
  show ?case
  proof (cases "x = c")
    case True
    then show ?thesis by simp
  next
    case False
    then show ?thesis using Cons.IH by simp
  qed
qed

lemma nth_opt_split_on_1:
  "nth_opt (split_on c s) (Suc 0) =
     (case dropWhile (\<lambda>x. x \<noteq> c) s of [] \<Rightarrow> None
      | _ # r \<Rightarrow> Some (takeWhile (\<lambda>x. x \<noteq> c) r))"
proof (cases "dropWhile (\<lambda>x. x \<noteq> c) s")
  case Nil
  have "split_on c s = [takeWhile (\<lambda>x. x \<noteq> c) s]"
    using split_on_takeWhile [of c s] by (simp only: Nil list.case)
  then show ?thesis
    by (simp only: Nil list.case nth_opt.simps)
next
  case (Cons a r)
  have 1: "split_on c s = takeWhile (\<lambda>x. x \<noteq> c) s # split_on c r"
    using split_on_takeWhile [of c s] by (simp only: Cons list.case)
  obtain ys where 2: "split_on c r = takeWhile (\<lambda>x. x \<noteq> c) r # ys"
    using split_on_takeWhile [of c r] by blast
  show ?thesis
    by (simp only: 1 2 Cons list.case nth_opt.simps)
qed

lemma startsWith_Bearer:
  "startsWith h ''Bearer '' \<Longrightarrow> \<exists>rest. h = ''Bearer '' @ rest"
  unfolding startsWith_def
  by (metis append_take_drop_id)

lemma bearer_token_eq:
  assumes "startsWith h ''Bearer ''"
  shows "nth_opt (split_on CHR '' '' h) (Suc 0) = Some (first_space_token h)"
proof -
  from assms obtain rest where h: "h = ''Bearer '' @ rest"
    using startsWith_Bearer by blast
  show ?thesis
    unfolding h nth_opt_split_on_1 first_space_token_def by simp
qed

lemma adminAuth_bearer:
  assumes sw: "startsWith h ''Bearer ''"
  shows "adminAuthMiddleware secret (Some h) =
           (if secret = Some (first_space_token h) then Next
            else Respond (respond 403 (Message ''Token admin tidak valid.'')))"
proof -
  from sw have ne: "h \<noteq> []" by (auto simp: startsWith_def)
  have tok: "nth_opt (split_on CHR '' '' h) 1 = Some (first_space_token h)"
    using bearer_token_eq [OF sw] by simp
  show ?thesis
    using sw ne by (auto simp: adminAuthMiddleware_def tok simp del: One_nat_def)
qed

text \<open>
  Claim C10. The middleware takes as the token the text between the first and the second
  space of the Authorization header. A header that starts with \<^verbatim>\<open>Bearer \<close> passes the
  scheme check whatever follows: it is answered 403 unless that token is the configured
  secret, never 401. This covers the header \<^verbatim>\<open>Bearer \<close> itself (the empty token) and a
  token followed by a space and more text. The scheme is matched case-sensitively:
  \<^verbatim>\<open>bearer <token>\<close> is answered 401.
\<close>

theorem adminAuth_token_extraction:
  "(startsWith h ''Bearer '' \<longrightarrow>
      adminAuthMiddleware secret (Some h) =
        (if secret = Some (first_space_token h) then Next
         else Respond (respond 403 (Message ''Token admin tidak valid.''))))
   \<and> adminAuthMiddleware secret (Some ''Bearer '') =
        (if secret = Some [] then Next
         else Respond (respond 403 (Message ''Token admin tidak valid.'')))
   \<and> (CHR '' '' \<notin> set tok \<longrightarrow>
        adminAuthMiddleware secret (Some (''Bearer '' @ tok @ '' '' @ extra)) =
          (if secret = Some tok then Next
           else Respond (respond 403 (Message ''Token admin tidak valid.''))))
   \<and> adminAuthMiddleware secret (Some (''bearer '' @ rest)) =
        Respond (respond 401 (Message ''Autentikasi diperlukan.''))"
proof (intro conjI impI)
  assume "startsWith h ''Bearer ''"
  then show "adminAuthMiddleware secret (Some h) =
        (if secret = Some (first_space_token h) then Next
         else Respond (respond 403 (Message ''Token admin tidak valid.'')))"
    by (rule adminAuth_bearer)
next
  have "startsWith ''Bearer '' ''Bearer ''"
    by (simp add: startsWith_def)
  moreover have "first_space_token ''Bearer '' = []"
    by (simp add: first_space_token_def)
  ultimately show "adminAuthMiddleware secret (Some ''Bearer '') =
        (if secret = Some [] then Next
         else Respond (respond 403 (Message ''Token admin tidak valid.'')))"
    using adminAuth_bearer [of "''Bearer ''" secret] by (simp only:)
next
  assume ns: "CHR '' '' \<notin> set tok"
  let ?h = "''Bearer '' @ tok @ '' '' @ extra"
  have sw: "startsWith ?h ''Bearer ''"
    by (simp add: startsWith_def)
  from ns have tw: "takeWhile (\<lambda>c. c \<noteq> CHR '' '') (tok @ CHR '' '' # extra) = tok"
    by (induction tok) auto
  have "first_space_token ?h = tok"
    using tw by (simp add: first_space_token_def)
  then show "adminAuthMiddleware secret (Some ?h) =
          (if secret = Some tok then Next
           else Respond (respond 403 (Message ''Token admin tidak valid.'')))"
    using adminAuth_bearer [OF sw, of secret] by (simp only:)
next
  show "adminAuthMiddleware secret (Some (''bearer '' @ rest)) =
        Respond (respond 401 (Message ''Autentikasi diperlukan.''))"
    by (simp add: adminAuthMiddleware_def startsWith_def)
qed

theorem adminAuth_token_extraction_witness:
  "adminAuthMiddleware (Some ''s3cret'') (Some ''Bearer s3cret and more'') = Next
   \<and> adminAuthMiddleware (Some ''s3cret'') (Some ''Bearer '') =
        Respond (respond 403 (Message ''Token admin tidak valid.''))
   \<and> adminAuthMiddleware (Some ''s3cret'') (Some ''Bearer other s3cret'') =
        Respond (respond 403 (Message ''Token admin tidak valid.''))
   \<and> adminAuthMiddleware (Some ''s3cret'') (Some ''bearer s3cret'') =
        Respond (respond 401 (Message ''Autentikasi diperlukan.''))"
  using adminAuth_token_extraction [of "''Bearer s3cret and more''" "Some ''s3cret''" "''s3cret''" "''and more''" "''s3cret''"]
        adminAuth_token_extraction [of "''Bearer other s3cret''" "Some ''s3cret''" "''other''" "''s3cret''" "''s3cret''"]
  by (simp add: startsWith_def first_space_token_def)

subsection \<open>What each store call changes\<close>

lemma db_call_frame:
  assumes "db_call ev w = (f, w')"
  shows "db w' = db w \<and> pool_busy w' = pool_busy w \<and> idle w' = idle w
         \<and> trace w' = trace w @ [ev]
         \<and> env_of w' = env_of w \<and> counters_of w' = counters_of w
         \<and> faults w' = tl (faults w) \<and> (f = None) = calm 1 w"
  using assms
  by (auto simp: db_call_def log_event_def Let_def env_of_def counters_of_def calm_def
           split: list.splits)

lemma calm_tl: "calm (Suc n) w \<Longrightarrow> faults w' = tl (faults w) \<Longrightarrow> calm n w'"
  by (cases "faults w") (auto simp: calm_def)

lemma calm_1: "calm (Suc n) w \<Longrightarrow> calm 1 w"
  by (cases "faults w") (auto simp: calm_def)

lemma conn_view_admins: "admins (conn_view c w) = admins (db w) @ pending_admins c"
  by (simp add: conn_view_def with_pending_def pending_admins_def split: option.splits)

lemma pool_take_frame:
  assumes "pool_take w = (c, w')"
  shows "fst (pool_take w) = c \<and> idle w' = tl (idle w)
         \<and> (clean_pool w \<longrightarrow> tx c = None \<and> clean_pool w')
         \<and> db w' = db w \<and> pool_busy w' = pool_busy w \<and> trace w' = trace w
         \<and> env_of w' = env_of w \<and> counters_of w' = counters_of w \<and> faults w' = faults w"
  using assms
  by (auto simp: pool_take_def env_of_def counters_of_def clean_pool_def split: list.splits)

lemma pool_take_cong: "idle w' = idle w \<Longrightarrow> fst (pool_take w') = fst (pool_take w)"
  by (simp add: pool_take_def split: list.splits)

lemma getConnection_ok:
  assumes "pool_getConnection w = (Inr c, w')"
  shows "fst (pool_take w) = c \<and> idle w' = tl (idle w)
         \<and> (clean_pool w \<longrightarrow> tx c = None \<and> clean_pool w')
         \<and> db w' = db w \<and> pool_busy w' = Suc (pool_busy w)
         \<and> env_of w' = env_of w \<and> counters_of w' = counters_of w
         \<and> faults w' = tl (faults w) \<and> calm 1 w"
proof -
  obtain w1 where a: "db_call EvGetConnection w = (None, w1)"
    using assms by (auto simp: pool_getConnection_def split: prod.splits option.splits)
  obtain w2 where b: "pool_take w1 = (c, w2)" and c: "w' = w2\<lparr> pool_busy := Suc (pool_busy w2) \<rparr>"
    using assms a by (auto simp: pool_getConnection_def split: prod.splits)
  note fa = db_call_frame [OF a]
  note fb = pool_take_frame [OF b]
  have cl: "clean_pool w1 = clean_pool w" "clean_pool w' = clean_pool w2"
    using fa c by (simp_all add: clean_pool_def)
  have "fst (pool_take w1) = fst (pool_take w)"
    using fa pool_take_cong [of w1 w] by simp
  then show ?thesis
    using fa fb c cl by (simp add: env_of_def counters_of_def)
qed

lemma getConnection_err:
  assumes "pool_getConnection w = (Inl e, w')"
  shows "db w' = db w \<and> pool_busy w' = pool_busy w \<and> idle w' = idle w
         \<and> faults w' = tl (faults w)"
  using assms
  by (auto simp: pool_getConnection_def split: prod.splits option.splits
           dest!: db_call_frame)

lemma beginTransaction_ok:
  assumes "conn_beginTransaction c w = (Inr u, c', w')"
  shows "tx c' = Some \<lparr> new_admins = [], new_users = [], new_keys = [] \<rparr>
         \<and> db w' = conn_view c w
         \<and> pool_busy w' = pool_busy w \<and> idle w' = idle w
         \<and> env_of w' = env_of w \<and> counters_of w' = counters_of w
         \<and> faults w' = tl (faults w) \<and> calm 1 w"
  using assms
  by (auto simp: conn_beginTransaction_def env_of_def counters_of_def conn_view_def
           split: prod.splits option.splits dest!: db_call_frame)

lemma beginTransaction_err:
  assumes "conn_beginTransaction c w = (Inl e, c', w')"
  shows "c' = c \<and> db w' = db w \<and> pool_busy w' = pool_busy w \<and> idle w' = idle w
         \<and> faults w' = tl (faults w)"
  using assms
  by (auto simp: conn_beginTransaction_def env_of_def counters_of_def
           split: prod.splits option.splits dest!: db_call_frame)

lemma insert_user_ok:
  assumes "conn_insert_user fn ln email c w = (Inr uid, c', w')" and "tx c = Some p"
  shows "tx c' = Some (p\<lparr> new_users := new_users p @
             [\<lparr> user_id = uid, first_name = fn, last_name = ln, user_email = email,
                user_created_at = db_clock w \<rparr>] \<rparr>)
         \<and> uid = next_user_id w \<and> db w' = db w \<and> pool_busy w' = pool_busy w
         \<and> idle w' = idle w
         \<and> env_of w' = env_of w \<and> next_key_id w' = next_key_id w
         \<and> faults w' = tl (faults w) \<and> calm 1 w"
  using assms
  by (auto simp: conn_insert_user_def conn_add_user_def env_of_def counters_of_def
           split: prod.splits option.splits sum.splits if_splits dest!: db_call_frame)

lemma insert_user_err:
  assumes "conn_insert_user fn ln email c w = (Inl e, c', w')"
  shows "c' = c \<and> db w' = db w \<and> pool_busy w' = pool_busy w \<and> idle w' = idle w
         \<and> faults w' = tl (faults w)"
  using assms
  by (auto simp: conn_insert_user_def conn_add_user_def
           split: prod.splits option.splits sum.splits if_splits dest!: db_call_frame)

lemma insert_key_ok:
  assumes "conn_insert_key uid k exp c w = (Inr x, c', w')" and "tx c = Some p"
  shows "tx c' = Some (p\<lparr> new_keys := new_keys p @
             [\<lparr> key_id = next_key_id w, key_user_id = uid, api_key = k, expires_at = exp,
                key_created_at = db_clock w \<rparr>] \<rparr>)
         \<and> db w' = db w \<and> pool_busy w' = pool_busy w \<and> idle w' = idle w
         \<and> faults w' = tl (faults w) \<and> calm 1 w"
  using assms
  by (auto simp: conn_insert_key_def conn_add_key_def env_of_def counters_of_def
           split: prod.splits option.splits sum.splits if_splits dest!: db_call_frame)

lemma insert_key_err:
  assumes "conn_insert_key uid k exp c w = (Inl e, c', w')"
  shows "c' = c \<and> db w' = db w \<and> pool_busy w' = pool_busy w \<and> idle w' = idle w
         \<and> faults w' = tl (faults w)"
  using assms
  by (auto simp: conn_insert_key_def conn_add_key_def
           split: prod.splits option.splits sum.splits if_splits dest!: db_call_frame)

lemma commit_ok:
  assumes "conn_commit c w = (Inr x, c', w')" and "tx c = Some p"
  shows "db w' = with_pending p (db w) \<and> pool_busy w' = pool_busy w \<and> idle w' = idle w
         \<and> tx c' = None \<and> calm 1 w"
  using assms
  by (auto simp: conn_commit_def env_of_def counters_of_def conn_view_def
           split: prod.splits option.splits dest!: db_call_frame)

lemma commit_err:
  assumes "conn_commit c w = (Inl e, c', w')"
  shows "c' = c \<and> db w' = db w \<and> pool_busy w' = pool_busy w \<and> idle w' = idle w
         \<and> faults w' = tl (faults w)"
  using assms
  by (auto simp: conn_commit_def env_of_def counters_of_def
           split: prod.splits option.splits dest!: db_call_frame)

lemma rollback_frame:
  assumes "conn_rollback c w = (r, c', w')"
  shows "db w' = db w \<and> pool_busy w' = pool_busy w \<and> idle w' = idle w
         \<and> (case r of Inl e \<Rightarrow> c' = c \<and> \<not> calm 1 w | Inr u \<Rightarrow> tx c' = None)"
  using assms
  by (auto simp: conn_rollback_def split: prod.splits option.splits sum.splits
           dest!: db_call_frame)

lemma generateApiKey_frame:
  assumes "generateApiKey w = (k, w')"
  shows "db w' = db w \<and> pool_busy w' = pool_busy w \<and> idle w' = idle w
         \<and> db_clock w' = db_clock w
         \<and> js_clock w' = js_clock w \<and> counters_of w' = counters_of w
         \<and> faults w' = faults w"
  using assms
  by (auto simp: generateApiKey_def randomBytes_def log_event_def counters_of_def
           split: prod.splits)

lemma generateApiKey_env:
  "env_of w' = env_of w \<Longrightarrow> fst (generateApiKey w') = fst (generateApiKey w)"
  by (simp add: generateApiKey_def randomBytes_def env_of_def)

lemma getExpirationDate_clock:
  "js_clock w' = js_clock w \<Longrightarrow> getExpirationDate tz d w' = getExpirationDate tz d w"
  by (simp add: getExpirationDate_def new_Date_def)

lemma calm_Suc: "calm 1 w \<Longrightarrow> faults w' = tl (faults w) \<Longrightarrow> calm n w' \<Longrightarrow> calm (Suc n) w"
  by (cases "faults w") (auto simp: calm_def)

lemma calm_cong: "faults w' = faults w \<Longrightarrow> calm n w' = calm n w"
  by (simp add: calm_def)


lemma calm_drop:
  assumes "calm 6 w" and "faults w' = drop n (faults w)" and "n \<le> 5"
  shows "calm 1 w'"
proof -
  have "take (n + 1) (faults w) = take n (faults w) @ take 1 (drop n (faults w))"
    by (rule take_add)
  then have "set (take 1 (drop n (faults w))) \<subseteq> set (take (n + 1) (faults w))"
    by (metis Un_upper2 set_append)
  also have "\<dots> \<subseteq> set (take 6 (faults w))"
    using assms(3) by (intro set_take_subset_set_take) simp
  finally show ?thesis
    using assms(1,2) by (auto simp: calm_def list_all_iff)
qed

lemma drop_step:
  "faults w' = tl (faults w1) \<Longrightarrow> faults w1 = drop n (faults w) \<Longrightarrow> faults w' = drop (Suc n) (faults w)"
  by (simp add: drop_Suc tl_drop)

lemma conn_view_clean: "tx c = None \<Longrightarrow> conn_view c w = db w"
  by (simp add: conn_view_def)

lemma user_register_try_outcome:
  assumes "user_register_try tz fn ln email w = (res, conn, w1)"
  shows "pool_busy w1 = pool_busy w + (if conn = None then 0 else 1)
    \<and> idle w1 = (if conn = None then idle w else tl (idle w))
    \<and> (admins (db w1) = admins (db w)
        \<or> admins (db w1) = admins (db w) @ pending_admins (fst (pool_take w)))
    \<and> (\<forall>c. conn = Some c \<longrightarrow> pending_admins c = [] \<or> c = fst (pool_take w))
    \<and> (calm 6 w \<longrightarrow> calm 1 w1)
    \<and> (\<forall>e. res = Inl e \<longrightarrow> (clean_pool w \<longrightarrow> db w1 = db w))
    \<and> (\<forall>k exp. res = Inr (k, exp) \<longrightarrow>
          k = fst (generateApiKey w) \<and> getExpirationDate tz (Some 30) w = Inr exp \<and> calm 5 w
          \<and> (\<exists>c. conn = Some c \<and> tx c = None)
          \<and> (\<exists>ks. api_keys (db w1) = ks @
                [\<lparr> key_id = next_key_id w, key_user_id = next_user_id w, api_key = k,
                   expires_at = exp, key_created_at = db_clock w \<rparr>])
          \<and> (clean_pool w \<longrightarrow> db w1 = registered_tables fn ln email k exp w))"
proof -
  obtain r0 w1' where g: "pool_getConnection w = (r0, w1')"
    by (cases "pool_getConnection w")
  show ?thesis
  proof (cases r0)
    case (Inl e)
    note g0 = getConnection_err [OF g [unfolded Inl]]
    have "faults w1' = drop 1 (faults w)"
      using g0 by (simp add: drop_Suc)
    then have "calm 6 w \<longrightarrow> calm 1 w1'"
      using calm_drop [of w w1'] by simp
    with g Inl assms g0 show ?thesis
      by (auto simp: user_register_try_def)
  next
    case (Inr c0)
    note g0 = getConnection_ok [OF g [unfolded Inr]]
    have hd0: "fst (pool_take w) = c0"
      using g0 by simp
    have f1: "faults w1' = drop 1 (faults w)"
      using g0 by (simp add: drop_Suc)
    have cl0: "clean_pool w \<Longrightarrow> conn_view c0 w1' = db w"
      using g0 by (simp add: conn_view_clean)
    obtain r1 c1 w2 where b: "conn_beginTransaction c0 w1' = (r1, c1, w2)"
      by (cases "conn_beginTransaction c0 w1'") auto
    show ?thesis
    proof (cases r1)
      case (Inl e)
      note b0 = beginTransaction_err [OF b [unfolded Inl]]
      have "faults w2 = drop 2 (faults w)"
        using drop_step [OF _ f1, of w2] b0 by (simp add: eval_nat_numeral)
      then have "calm 6 w \<longrightarrow> calm 1 w2"
        using calm_drop [of w w2] by simp
      with g \<open>r0 = Inr c0\<close> b Inl assms g0 b0 show ?thesis
        by (auto simp: user_register_try_def)
    next
      case (Inr u1)
      note b0 = beginTransaction_ok [OF b [unfolded Inr]]
      have f2: "faults w2 = drop 2 (faults w)"
        using drop_step [OF _ f1, of w2] b0 by (simp add: eval_nat_numeral)
      have adm2: "admins (db w2) = admins (db w) @ pending_admins c0"
        using b0 g0 by (simp add: conn_view_admins)
      have pa1: "pending_admins c1 = []"
        using b0 by (simp add: pending_admins_def)
      have cl2: "clean_pool w \<Longrightarrow> db w2 = db w"
        using b0 cl0 by simp
      obtain r2 c2 w3 where i: "conn_insert_user fn ln email c1 w2 = (r2, c2, w3)"
        by (cases "conn_insert_user fn ln email c1 w2") auto
      show ?thesis
      proof (cases r2)
        case (Inl e)
        note i0 = insert_user_err [OF i [unfolded Inl]]
        have "faults w3 = drop 3 (faults w)"
          using drop_step [OF _ f2, of w3] i0 by (simp add: eval_nat_numeral)
        then have "calm 6 w \<longrightarrow> calm 1 w3"
          using calm_drop [of w w3] by simp
        moreover have "res = Inl e \<and> conn = Some c1 \<and> w1 = w3"
          using g \<open>r0 = Inr c0\<close> b \<open>r1 = Inr u1\<close> i Inl assms i0
          by (auto simp: user_register_try_def)
        moreover have "pool_busy w3 = Suc (pool_busy w) \<and> idle w3 = tl (idle w) \<and> db w3 = db w2"
          using g0 b0 i0 by simp
        ultimately show ?thesis
          using adm2 pa1 cl2 hd0 by simp
      next
        case (Inr newUserId)
        note i0 = insert_user_ok [OF i [unfolded Inr] conjunct1 [OF b0]]
        have f3: "faults w3 = drop 3 (faults w)"
          using drop_step [OF _ f2, of w3] i0 by (simp add: eval_nat_numeral)
        have pa2: "pending_admins c2 = []"
          using i0 by (simp add: pending_admins_def)
        obtain apiKey w4 where k: "generateApiKey w3 = (apiKey, w4)"
          by (cases "generateApiKey w3")
        note k0 = generateApiKey_frame [OF k]
        have f4: "faults w4 = drop 3 (faults w)"
          using f3 k0 by simp
        have env3: "env_of w3 = env_of w"
          using g0 b0 i0 by simp
        have key: "apiKey = fst (generateApiKey w)"
          using generateApiKey_env [OF env3] k by simp
        have clock4: "js_clock w4 = js_clock w"
          using env3 k0 by (simp add: env_of_def)
        note exp_eq = getExpirationDate_clock [OF clock4, of tz "Some 30"]
        have c41: "calm 6 w \<longrightarrow> calm 1 w4"
          using calm_drop [of w w4 3] f3 k0 by simp
        have st4: "pool_busy w4 = Suc (pool_busy w) \<and> idle w4 = tl (idle w) \<and> db w4 = db w2"
          using g0 b0 i0 k0 by simp
        show ?thesis
        proof (cases "getExpirationDate tz (Some 30) w4")
          case (Inl e)
          have "res = Inl e \<and> conn = Some c2 \<and> w1 = w4"
            using g \<open>r0 = Inr c0\<close> b \<open>r1 = Inr u1\<close> i \<open>r2 = Inr newUserId\<close> k Inl assms
            by (auto simp: user_register_try_def)
          then show ?thesis
            using adm2 pa2 cl2 hd0 c41 st4 by simp
        next
          case (Inr expiresAt)
          note x = this
          obtain r3 c3 w5 where j: "conn_insert_key newUserId apiKey expiresAt c2 w4 = (r3, c3, w5)"
            by (cases "conn_insert_key newUserId apiKey expiresAt c2 w4") auto
          show ?thesis
          proof (cases r3)
            case (Inl e)
            note j0 = insert_key_err [OF j [unfolded Inl]]
            have "faults w5 = drop 4 (faults w)"
              using drop_step [OF _ f4, of w5] j0 by (simp add: eval_nat_numeral)
            then have "calm 6 w \<longrightarrow> calm 1 w5"
              using calm_drop [of w w5] by simp
            moreover have "res = Inl e \<and> conn = Some c2 \<and> w1 = w5"
              using g \<open>r0 = Inr c0\<close> b \<open>r1 = Inr u1\<close> i \<open>r2 = Inr newUserId\<close> k x j Inl assms j0
              by (auto simp: user_register_try_def)
            moreover have "pool_busy w5 = Suc (pool_busy w) \<and> idle w5 = tl (idle w) \<and> db w5 = db w2"
              using st4 j0 by simp
            ultimately show ?thesis
              using adm2 pa2 cl2 hd0 by simp
          next
            case (Inr u3)
            note j0 = insert_key_ok [OF j [unfolded Inr] conjunct1 [OF i0]]
            have f5: "faults w5 = drop 4 (faults w)"
              using drop_step [OF _ f4, of w5] j0 by (simp add: eval_nat_numeral)
            have pa3: "pending_admins c3 = []"
              using j0 by (simp add: pending_admins_def)
            have st5: "pool_busy w5 = Suc (pool_busy w) \<and> idle w5 = tl (idle w) \<and> db w5 = db w2"
              using st4 j0 by simp
            obtain r4 c4 w6 where m: "conn_commit c3 w5 = (r4, c4, w6)"
              by (cases "conn_commit c3 w5") auto
            show ?thesis
            proof (cases r4)
              case (Inl e)
              note m0 = commit_err [OF m [unfolded Inl]]
              have "faults w6 = drop 5 (faults w)"
                using drop_step [OF _ f5, of w6] m0 by (simp add: eval_nat_numeral)
              then have "calm 6 w \<longrightarrow> calm 1 w6"
                using calm_drop [of w w6] by simp
              moreover have "res = Inl e \<and> conn = Some c3 \<and> w1 = w6"
                using g \<open>r0 = Inr c0\<close> b \<open>r1 = Inr u1\<close> i \<open>r2 = Inr newUserId\<close> k x j
                  \<open>r3 = Inr u3\<close> m Inl assms m0
                by (auto simp: user_register_try_def)
              moreover have "pool_busy w6 = Suc (pool_busy w) \<and> idle w6 = tl (idle w)
                             \<and> db w6 = db w2"
                using st5 m0 by simp
              ultimately show ?thesis
                using adm2 pa3 cl2 hd0 by simp
            next
              case (Inr u4)
              note m0 = commit_ok [OF m [unfolded Inr] conjunct1 [OF j0]]
              have c5: "calm 1 w5" using m0 by simp
              have c4: "calm 2 w4"
                using calm_Suc [of w4 w5 1] j0 c5 by (simp add: numeral_2_eq_2)
              have c3: "calm 2 w3"
                using c4 calm_cong [of w4 w3 2] k0 by simp
              have c2: "calm 3 w2"
                using calm_Suc [of w2 w3 2] i0 c3 by (simp add: numeral_3_eq_3 numeral_2_eq_2)
              have c1: "calm 4 w1'"
                using calm_Suc [of w1' w2 3] b0 c2 by (simp add: eval_nat_numeral)
              have c0: "calm 5 w"
                using calm_Suc [of w w1' 4] g0 c1 by (simp add: eval_nat_numeral)
              have res: "res = Inr (apiKey, expiresAt) \<and> conn = Some c4 \<and> w1 = w6"
                using g \<open>r0 = Inr c0\<close> b \<open>r1 = Inr u1\<close> i \<open>r2 = Inr newUserId\<close> k x j
                  \<open>r3 = Inr u3\<close> m Inr assms
                by (auto simp: user_register_try_def)
              have ids: "db_clock w4 = db_clock w \<and> db_clock w2 = db_clock w
                         \<and> next_key_id w4 = next_key_id w \<and> next_user_id w2 = next_user_id w"
                using g0 b0 i0 k0 by (simp add: env_of_def counters_of_def)
              have tabs6: "db w6 = (db w2)\<lparr> users := users (db w2) @
                    [\<lparr> user_id = next_user_id w, first_name = fn, last_name = ln,
                       user_email = email, user_created_at = db_clock w \<rparr>],
                  api_keys := api_keys (db w2) @
                    [\<lparr> key_id = next_key_id w, key_user_id = next_user_id w, api_key = apiKey,
                       expires_at = expiresAt, key_created_at = db_clock w \<rparr>] \<rparr>"
                using i0 k0 j0 m0 ids by (simp add: with_pending_def)
              have adm: "admins (db w6) = admins (db w) @ pending_admins c0"
                using tabs6 adm2 by simp
              have tabs: "clean_pool w \<longrightarrow> db w6 = registered_tables fn ln email apiKey expiresAt w"
                using tabs6 cl2 by (simp add: registered_tables_def)
              have last: "\<exists>ks. api_keys (db w6) = ks @
                    [\<lparr> key_id = next_key_id w, key_user_id = next_user_id w, api_key = apiKey,
                       expires_at = expiresAt, key_created_at = db_clock w \<rparr>]"
                using tabs6 by simp
              have busy: "pool_busy w6 = Suc (pool_busy w)"
                using st5 m0 by simp
              have idl: "idle w6 = tl (idle w)"
                using st5 m0 by simp
              have "faults w6 = tl (faults w5)"
                using m by (auto simp: conn_commit_def
                                 split: prod.splits option.splits dest!: db_call_frame)
              then have f6: "faults w6 = drop 5 (faults w)"
                using drop_step [OF _ f5, of w6] by (simp add: eval_nat_numeral)
              have c61: "calm 6 w \<longrightarrow> calm 1 w6"
                using calm_drop [of w w6 5] f6 by simp
              have txc: "tx c4 = None" using m0 by simp
              then have pa4: "pending_admins c4 = []"
                by (simp add: pending_admins_def)
              show ?thesis
                using res tabs busy key c0 x exp_eq adm last idl c61 txc pa4 hd0 by simp
            qed
          qed
        qed
      qed
    qed
  qed
qed

lemma user_register_catch_frame:
  assumes "user_register_catch conn err w = (r, conn', w')"
  shows "db w' = db w \<and> pool_busy w' = pool_busy w \<and> idle w' = idle w
         \<and> (conn' = None) = (conn = None)
         \<and> ((r = None \<and> \<not> calm 1 w \<and> conn' = conn)
             \<or> ((r = Some (respond 409 (Message ''Email pengguna sudah terdaftar.''))
                  \<or> r = Some (respond 500 (Message ''Gagal registrasi pengguna.'')))
                 \<and> (\<forall>c. conn' = Some c \<longrightarrow> tx c = None)))"
  using assms
  by (auto simp: user_register_catch_def user_register_respond_def log_event_def
           split: option.splits prod.splits sum.splits if_splits dest!: rollback_frame)

lemma user_register_finally_frame:
  "db (user_register_finally conn w) = db w
   \<and> pool_busy (user_register_finally conn w) = pool_busy w - (if conn = None then 0 else 1)
   \<and> idle (user_register_finally conn w) = (case conn of None \<Rightarrow> idle w | Some c \<Rightarrow> c # idle w)"
  by (auto simp: user_register_finally_def conn_release_def pool_put_def log_event_def
           split: option.splits)

lemma clean_pool_Cons:
  "clean_pool w \<Longrightarrow> idle w' = c # tl (idle w) \<Longrightarrow> tx c = None \<Longrightarrow> clean_pool w'"
  by (cases "idle w") (auto simp: clean_pool_def)

lemma clean_pool_cong: "idle w' = idle w \<Longrightarrow> clean_pool w' = clean_pool w"
  by (simp add: clean_pool_def)

lemma user_register_outcome:
  assumes t: "truthy (js_get b ''first_name'')" "truthy (js_get b ''last_name'')"
             "truthy (js_get b ''email'')"
    and u: "user_register tz b w = (r, w')"
  shows "pool_busy w' = pool_busy w
    \<and> (admins (db w') = admins (db w)
        \<or> admins (db w') = admins (db w) @ pending_admins (fst (pool_take w)))
    \<and> (idle w' = idle w
        \<or> (\<exists>c. idle w' = c # tl (idle w)
                 \<and> (pending_admins c = [] \<or> c = fst (pool_take w))))
    \<and> ((\<exists>exp. r = Some (respond 201 (RegisteredBody ''Registrasi berhasil. API Key dibuat.''
                                        (fst (generateApiKey w)) exp))
            \<and> getExpirationDate tz (Some 30) w = Inr exp \<and> calm 5 w
            \<and> (\<exists>ks. api_keys (db w') = ks @
                  [\<lparr> key_id = next_key_id w, key_user_id = next_user_id w,
                     api_key = fst (generateApiKey w), expires_at = exp,
                     key_created_at = db_clock w \<rparr>])
            \<and> (clean_pool w \<longrightarrow>
                  clean_pool w'
                  \<and> db w' = registered_tables (js_get b ''first_name'') (js_get b ''last_name'')
                               (js_get b ''email'') (fst (generateApiKey w)) exp w))
         \<or> ((r = Some (respond 409 (Message ''Email pengguna sudah terdaftar.''))
               \<or> r = Some (respond 500 (Message ''Gagal registrasi pengguna.'')))
             \<and> (clean_pool w \<longrightarrow> clean_pool w' \<and> db w' = db w))
         \<or> (r = None \<and> \<not> calm 6 w \<and> (clean_pool w \<longrightarrow> db w' = db w)))"
proof -
  let ?fn = "js_get b ''first_name''" and ?ln = "js_get b ''last_name''"
    and ?em = "js_get b ''email''"
  obtain res conn w1 where tr: "user_register_try tz ?fn ?ln ?em w = (res, conn, w1)"
    by (cases "user_register_try tz ?fn ?ln ?em w") auto
  note o = user_register_try_outcome [OF tr]
  note o_busy = o [THEN conjunct1]
  note o_idle = o [THEN conjunct2, THEN conjunct1]
  note o_adm = o [THEN conjunct2, THEN conjunct2, THEN conjunct1]
  note o_conn = o [THEN conjunct2, THEN conjunct2, THEN conjunct2, THEN conjunct1]
  note o_calm = o [THEN conjunct2, THEN conjunct2, THEN conjunct2, THEN conjunct2, THEN conjunct1]
  note o_inl = o [THEN conjunct2, THEN conjunct2, THEN conjunct2, THEN conjunct2, THEN conjunct2,
                  THEN conjunct1]
  note o_inr = o [THEN conjunct2, THEN conjunct2, THEN conjunct2, THEN conjunct2, THEN conjunct2,
                  THEN conjunct2]
  show ?thesis
  proof (cases res)
    case (Inr ke)
    obtain k exp where ke: "ke = (k, exp)" by (cases ke)
    have rw: "r = Some (respond 201 (RegisteredBody ''Registrasi berhasil. API Key dibuat.'' k exp))"
             "w' = user_register_finally conn w1"
      using u t tr Inr ke by (simp_all add: user_register_def)
    note ff = user_register_finally_frame [of conn w1, folded rw(2)]
    have "res = Inr (k, exp)" using Inr ke by simp
    from o_inr [rule_format, OF this] have s: "k = fst (generateApiKey w)"
        "getExpirationDate tz (Some 30) w = Inr exp" "calm 5 w" "\<exists>c. conn = Some c \<and> tx c = None"
        "\<exists>ks. api_keys (db w1) = ks @
                [\<lparr> key_id = next_key_id w, key_user_id = next_user_id w, api_key = k,
                   expires_at = exp, key_created_at = db_clock w \<rparr>]"
        "clean_pool w \<longrightarrow> db w1 = registered_tables ?fn ?ln ?em k exp w"
      by blast+
    from s(4) obtain c where c: "conn = Some c" "tx c = None"
      by blast
    have idl: "idle w' = c # tl (idle w)"
      using ff c o_idle by simp
    have pc: "pending_admins c = []"
      using c(2) by (simp add: pending_admins_def)
    have idl': "\<exists>c. idle w' = c # tl (idle w)
                 \<and> (pending_admins c = [] \<or> c = fst (pool_take w))"
      using idl pc by blast
    have cl: "clean_pool w \<longrightarrow> clean_pool w'"
      using clean_pool_Cons [OF _ idl c(2)] by simp
    have busy: "pool_busy w' = pool_busy w"
      using ff c o_busy by simp
    have dbw: "db w' = db w1"
      using ff by simp
    have adm: "admins (db w') = admins (db w)
               \<or> admins (db w') = admins (db w) @ pending_admins (fst (pool_take w))"
      using dbw o_adm by simp
    have main: "\<exists>exp. r = Some (respond 201 (RegisteredBody ''Registrasi berhasil. API Key dibuat.''
                                        (fst (generateApiKey w)) exp))
            \<and> getExpirationDate tz (Some 30) w = Inr exp \<and> calm 5 w
            \<and> (\<exists>ks. api_keys (db w') = ks @
                  [\<lparr> key_id = next_key_id w, key_user_id = next_user_id w,
                     api_key = fst (generateApiKey w), expires_at = exp,
                     key_created_at = db_clock w \<rparr>])
            \<and> (clean_pool w \<longrightarrow>
                  clean_pool w'
                  \<and> db w' = registered_tables ?fn ?ln ?em (fst (generateApiKey w)) exp w)"
      using rw(1) s(1,2,3,5,6) cl dbw by auto
    show ?thesis
      using busy adm idl' main by blast
  next
    case (Inl err)
    obtain r2 conn2 w2 where c: "user_register_catch conn err w1 = (r2, conn2, w2)"
      by (cases "user_register_catch conn err w1") auto
    note cf = user_register_catch_frame [OF c]
    have rw: "r = r2" "w' = user_register_finally conn2 w2"
      using u t tr Inl c by (simp_all add: user_register_def)
    note ff = user_register_finally_frame [of conn2 w2, folded rw(2)]
    have cfs: "db w2 = db w1" "pool_busy w2 = pool_busy w1" "idle w2 = idle w1"
              "(conn2 = None) = (conn = None)"
      using cf by simp_all
    have cfr: "(r = None \<and> \<not> calm 1 w1 \<and> conn2 = conn)
             \<or> ((r = Some (respond 409 (Message ''Email pengguna sudah terdaftar.''))
                  \<or> r = Some (respond 500 (Message ''Gagal registrasi pengguna.'')))
                 \<and> (\<forall>c. conn2 = Some c \<longrightarrow> tx c = None))"
      using cf rw(1) by simp
    have busy: "pool_busy w' = pool_busy w"
      using ff cfs o_busy by (cases conn2) auto
    have adm: "admins (db w') = admins (db w)
               \<or> admins (db w') = admins (db w) @ pending_admins (fst (pool_take w))"
      using ff cfs o_adm by simp
    have dbw: "clean_pool w \<longrightarrow> db w' = db w"
      using ff cfs o_inl Inl by simp
    have idl: "idle w' = idle w
        \<or> (\<exists>c. idle w' = c # tl (idle w)
                 \<and> (pending_admins c = [] \<or> c = fst (pool_take w)))"
    proof (cases conn2)
      case None
      then have "idle w' = idle w"
        using o_idle cfs ff by auto
      then show ?thesis by simp
    next
      case (Some c2)
      then have i: "idle w' = c2 # tl (idle w)"
        using o_idle cfs ff by auto
      have "pending_admins c2 = [] \<or> c2 = fst (pool_take w)"
        using cfr Some o_conn by (auto simp: pending_admins_def)
      then show ?thesis using i by blast
    qed
    have cl: "clean_pool w \<longrightarrow> clean_pool w'" if "r \<noteq> None"
    proof (cases conn2)
      case None
      then have "idle w' = idle w"
        using o_idle cfs ff by auto
      then show ?thesis using clean_pool_cong [of w' w] by simp
    next
      case (Some c2)
      then have "idle w' = c2 # tl (idle w)"
        using o_idle cfs ff by auto
      moreover have "tx c2 = None"
        using cfr that Some by simp
      ultimately show ?thesis using clean_pool_Cons [of w w' c2] by simp
    qed
    have nocalm: "\<not> calm 6 w" if "r = None"
      using that o_calm cfr by auto
    show ?thesis
      using busy adm idl dbw cl nocalm cfr by blast
  qed
qed

lemma sample_registration:
  "fst (user_register utc_zone ada_body sample_world) =
     Some (respond 201 (RegisteredBody ''Registrasi berhasil. API Key dibuat.''
       ''030a11181f262d343b424950575e656c737a81888f969da4abb2b9c0c7ced5dc''
       ''2024-03-31 17:00:00''))"
  by code_simp

lemma sample_registration_rows:
  "users (db (snd (user_register utc_zone ada_body sample_world))) =
     users (db sample_world) @
       [\<lparr> user_id = 2, first_name = JStr ''Ada'', last_name = JStr ''Lovelace'',
          user_email = JStr ''ada@example.com'', user_created_at = 1709312400 \<rparr>]
   \<and> api_keys (db (snd (user_register utc_zone ada_body sample_world))) =
     api_keys (db sample_world) @
       [\<lparr> key_id = 2, key_user_id = 2,
          api_key = ''030a11181f262d343b424950575e656c737a81888f969da4abb2b9c0c7ced5dc'',
          expires_at = ''2024-03-31 17:00:00'', key_created_at = 1709312400 \<rparr>]"
  by code_simp


lemma sample_forced_failure_pool:
  "idle (snd (user_register utc_zone ada_body key_insert_fails)) = [\<lparr> tx = None \<rparr>]"
  by code_simp




text \<open>
  Claim C7. The user-registration handler returns every connection it checked out: on
  every path (the 400 answer before any checkout, success after commit, a 409 or 500
  after rollback, and the path on which the rollback throws and no answer is sent) the
  number of connections checked out of the pool is the same after the handler as before.
\<close>

theorem user_register_releases_connection:
  "pool_busy (snd (user_register tz b w)) = pool_busy w"
proof (cases "truthy (js_get b ''first_name'') \<and> truthy (js_get b ''last_name'')
              \<and> truthy (js_get b ''email'')")
  case True
  then show ?thesis
    using user_register_outcome [of b tz w "fst (user_register tz b w)" "snd (user_register tz b w)"]
    by simp
next
  case False
  then show ?thesis
    by (auto simp: user_register_def)
qed

lemma sample_forced_failure_trace:
  "trace (snd (user_register utc_zone ada_body key_insert_fails)) =
     [EvGetConnection, EvBeginTransaction, EvConnQuery, EvRandomBytes, EvConnQuery,
      EvRollback, EvConsoleError, EvRelease]"
  by code_simp

theorem user_register_releases_connection_witness:
  "pool_busy (snd (user_register utc_zone ada_body key_insert_fails)) = pool_busy key_insert_fails
   \<and> pool_busy (snd (user_register utc_zone ada_body sample_world)) = pool_busy sample_world
   \<and> trace (snd (user_register utc_zone ada_body key_insert_fails)) =
       [EvGetConnection, EvBeginTransaction, EvConnQuery, EvRandomBytes, EvConnQuery,
        EvRollback, EvConsoleError, EvRelease]"
  using user_register_releases_connection [of utc_zone ada_body key_insert_fails]
        user_register_releases_connection [of utc_zone ada_body sample_world]
        sample_forced_failure_trace
  by simp

subsection \<open>What a statement sent with pool.query changes\<close>

lemma pool_view_clean: "clean_pool w \<Longrightarrow> pool_view w = db w"
  by (cases "idle w") (auto simp: pool_view_def pool_take_def conn_view_def clean_pool_def)

lemma pool_view_cong: "db w' = db w \<Longrightarrow> idle w' = idle w \<Longrightarrow> pool_view w' = pool_view w"
  by (cases "idle w") (simp_all add: pool_view_def pool_take_def conn_view_def split: option.splits)

lemma query_frame_refl: "db w' = db w \<Longrightarrow> idle w' = idle w \<Longrightarrow> query_frame w w'"
  by (simp add: query_frame_def)

lemma query_frame_trans: "query_frame w w1 \<Longrightarrow> query_frame w1 w2 \<Longrightarrow> query_frame w w2"
  by (auto simp: query_frame_def pool_take_def split: list.splits)

lemma query_frame_view: "query_frame w w' \<Longrightarrow> pool_view w' = pool_view w"
  by (cases "idle w")
     (auto simp: query_frame_def pool_view_def pool_take_def conn_view_def split: option.splits)

lemma query_frame_clean: "query_frame w w' \<Longrightarrow> clean_pool w \<Longrightarrow> clean_pool w'"
  by (auto simp: query_frame_def pool_take_def clean_pool_def split: list.splits)

lemma pool_take_put:
  "pool_take w = (c, w2) \<Longrightarrow> query_frame w (pool_put c w2) \<and> conn_view c w2 = pool_view w
     \<and> faults (pool_put c w2) = faults w"
  by (cases "idle w")
     (auto simp: pool_take_def pool_put_def query_frame_def pool_view_def conn_view_def
           split: option.splits)

lemma query_frame_log: "query_frame w w' \<Longrightarrow> query_frame w (log_event ev w')"
  by (simp add: query_frame_def log_event_def)

lemma pool_select_admin_hashes_frame:
  assumes "pool_select_admin_hashes e w = (res, w')"
  shows "query_frame w w' \<and> faults w' = tl (faults w)
         \<and> (calm 1 w \<longrightarrow> res = Inr (tbl_admin_hashes e (pool_view w)))"
proof -
  obtain f w1 where a: "db_call EvPoolQuery w = (f, w1)"
    by (cases "db_call EvPoolQuery w")
  note fa = db_call_frame [OF a]
  obtain c w2 where b: "pool_take w1 = (c, w2)"
    by (cases "pool_take w1")
  note fb = pool_take_put [OF b]
  have q1: "query_frame w w1" using fa by (simp add: query_frame_refl)
  have v: "pool_view w1 = pool_view w" using fa pool_view_cong [of w1 w] by simp
  show ?thesis
    using assms a b fa fb q1 v query_frame_trans [of w w1 "pool_put c w2"]
    by (cases f) (auto simp: pool_select_admin_hashes_def)
qed

lemma pool_select_users_frame:
  assumes "pool_select_users w = (res, w')"
  shows "query_frame w w' \<and> faults w' = tl (faults w)
         \<and> (calm 1 w \<longrightarrow> res = Inr (tbl_users_view (pool_view w)))"
proof -
  obtain f w1 where a: "db_call EvPoolQuery w = (f, w1)"
    by (cases "db_call EvPoolQuery w")
  note fa = db_call_frame [OF a]
  obtain c w2 where b: "pool_take w1 = (c, w2)"
    by (cases "pool_take w1")
  note fb = pool_take_put [OF b]
  have q1: "query_frame w w1" using fa by (simp add: query_frame_refl)
  have v: "pool_view w1 = pool_view w" using fa pool_view_cong [of w1 w] by simp
  show ?thesis
    using assms a b fa fb q1 v query_frame_trans [of w w1 "pool_put c w2"]
    by (cases f) (auto simp: pool_select_users_def)
qed

lemma pool_select_keys_frame:
  assumes "pool_select_keys w = (res, w')"
  shows "query_frame w w' \<and> faults w' = tl (faults w)
         \<and> (calm 1 w \<longrightarrow> res = Inr (tbl_keys_view (pool_view w)))"
proof -
  obtain f w1 where a: "db_call EvPoolQuery w = (f, w1)"
    by (cases "db_call EvPoolQuery w")
  note fa = db_call_frame [OF a]
  obtain c w2 where b: "pool_take w1 = (c, w2)"
    by (cases "pool_take w1")
  note fb = pool_take_put [OF b]
  have q1: "query_frame w w1" using fa by (simp add: query_frame_refl)
  have v: "pool_view w1 = pool_view w" using fa pool_view_cong [of w1 w] by simp
  show ?thesis
    using assms a b fa fb q1 v query_frame_trans [of w w1 "pool_put c w2"]
    by (cases f) (auto simp: pool_select_keys_def)
qed

lemma admin_login_frame: "query_frame w (snd (admin_login cfg b w))"
proof (cases "truthy (js_get b ''email'') \<and> truthy (js_get b ''password'')")
  case False
  then show ?thesis by (auto simp: admin_login_def Let_def query_frame_def)
next
  case True
  obtain res w1 where s: "pool_select_admin_hashes (js_get b ''email'') w = (res, w1)"
    by (cases "pool_select_admin_hashes (js_get b ''email'') w")
  note q = pool_select_admin_hashes_frame [OF s, THEN conjunct1]
  have "snd (admin_login cfg b w) = w1 \<or> snd (admin_login cfg b w) = log_event EvConsoleError w1
        \<or> snd (admin_login cfg b w) = log_event EvHash w1
        \<or> snd (admin_login cfg b w) = log_event EvConsoleError (log_event EvHash w1)"
    using True s
    by (auto simp: admin_login_def admin_login_catch_def Let_def
             split: sum.splits list.splits)
  then show ?thesis
    using q query_frame_log by auto
qed

lemma admin_dashboard_frame: "query_frame w (snd (admin_dashboard w))"
proof -
  obtain r1 w1 where a: "pool_select_users w = (r1, w1)"
    by (cases "pool_select_users w")
  obtain r2 w2 where b: "pool_select_keys w1 = (r2, w2)"
    by (cases "pool_select_keys w1")
  note qa = pool_select_users_frame [OF a, THEN conjunct1]
  note qb = pool_select_keys_frame [OF b, THEN conjunct1]
  note q2 = query_frame_trans [OF qa qb]
  have "snd (admin_dashboard w) = log_event EvConsoleError w1
        \<or> snd (admin_dashboard w) = log_event EvConsoleError w2
        \<or> snd (admin_dashboard w) = w2"
    using a b by (auto simp: admin_dashboard_def admin_dashboard_catch_def split: sum.splits)
  then show ?thesis
    using qa q2 query_frame_log by auto
qed

lemma dashboard_route_frame: "query_frame w (snd (dashboard_route cfg auth w))"
proof (cases "adminAuthMiddleware (ADMIN_TOKEN_DUMMY cfg) auth")
  case (Respond r)
  then show ?thesis by (simp add: dashboard_route_def query_frame_def)
next
  case Next
  then show ?thesis by (simp add: dashboard_route_def admin_dashboard_frame)
qed

subsection \<open>Admin registration and login\<close>








text \<open>What the insert of an admin row leaves.\<close>

lemma pool_insert_admin_effect:
  assumes "pool_insert_admin em hh w = (res, w')"
  shows "(query_frame w w' \<and> (\<exists>err. res = Inl err))
         \<or> (res = Inr ()
            \<and> em \<notin> set (map admin_email (admins (pool_view w)))
            \<and> (\<exists>c. idle w' = c # tl (idle w)
                 \<and> ((tx (fst (pool_take w)) = None \<and> c = fst (pool_take w)
                      \<and> db w' = (db w)\<lparr> admins := admins (db w) @
                            [\<lparr> admin_id = next_admin_id w, admin_email = em,
                               password_hash = hh \<rparr>] \<rparr>)
                     \<or> (tx (fst (pool_take w)) \<noteq> None \<and> db w' = db w
                         \<and> pending_admins c = pending_admins (fst (pool_take w)) @
                              [\<lparr> admin_id = next_admin_id w, admin_email = em,
                                 password_hash = hh \<rparr>]))))"
proof -
  obtain f w1 where a: "db_call EvPoolQuery w = (f, w1)"
    by (cases "db_call EvPoolQuery w")
  note fa = db_call_frame [OF a]
  have q1: "query_frame w w1" using fa by (simp add: query_frame_refl)
  show ?thesis
  proof (cases f)
    case (Some err)
    then have "res = Inl err \<and> w' = w1"
      using assms a by (auto simp: pool_insert_admin_def)
    then show ?thesis
      using q1 by blast
  next
    case None
    obtain c w2 where b: "pool_take w1 = (c, w2)"
      by (cases "pool_take w1")
    note fb = pool_take_put [OF b]
    note tb = pool_take_frame [OF b]
    have v: "pool_view w1 = pool_view w" using fa pool_view_cong [of w1 w] by simp
    have hd: "fst (pool_take w) = c"
      using tb fa pool_take_cong [of w1 w] by simp
    show ?thesis
    proof (cases "em \<in> set (map admin_email (admins (conn_view c w2)))")
      case True
      then have "res = Inl dup_entry \<and> w' = pool_put c w2"
        using assms a None b by (simp add: pool_insert_admin_def)
      then show ?thesis
        using fb q1 query_frame_trans [of w w1 "pool_put c w2"] by blast
    next
      case False
      let ?row = "\<lparr> admin_id = next_admin_id w, admin_email = em, password_hash = hh \<rparr>"
      have nid: "next_admin_id w2 = next_admin_id w"
        using tb fa by (simp add: counters_of_def)
      obtain c' w3 where d: "conn_add_admin ?row c (w2\<lparr> next_admin_id := Suc (next_admin_id w2) \<rparr>)
                               = (c', w3)"
        by (cases "conn_add_admin ?row c (w2\<lparr> next_admin_id := Suc (next_admin_id w2) \<rparr>)")
      have rw: "res = Inr () \<and> w' = pool_put c' w3"
        using assms a None b False d nid by (simp add: pool_insert_admin_def)
      have nv: "em \<notin> set (map admin_email (admins (pool_view w)))"
        using False fb v by simp
      have idl: "idle w' = c' # tl (idle w)"
        using rw d tb fa by (auto simp: conn_add_admin_def pool_put_def split: option.splits)
      have "(tx c = None \<and> c' = c
               \<and> db w' = (db w)\<lparr> admins := admins (db w) @ [?row] \<rparr>)
            \<or> (tx c \<noteq> None \<and> db w' = db w \<and> pending_admins c' = pending_admins c @ [?row])"
        using rw d tb fa
        by (auto simp: conn_add_admin_def pool_put_def pending_admins_def split: option.splits)
      then show ?thesis
        using rw nv idl hd by auto
    qed
  qed
qed

lemma admin_register_world:
  assumes "admin_register b w = (r, w')"
  shows "(query_frame w w' \<and> status r \<noteq> 201)
         \<or> (\<exists>hh res wi. hashPassword (js_get b ''password'') = Inr hh
               \<and> truthy (js_get b ''email'')
               \<and> pool_insert_admin (js_get b ''email'') hh (log_event EvHash w) = (res, wi)
               \<and> ((\<exists>err. res = Inl err \<and> status r \<noteq> 201
                          \<and> (w' = wi \<or> w' = log_event EvConsoleError wi))
                   \<or> (res = Inr () \<and> w' = wi \<and> status r = 201)))"
proof (cases "truthy (js_get b ''email'') \<and> truthy (js_get b ''password'')")
  case False
  then show ?thesis
    using assms by (auto simp: admin_register_def Let_def query_frame_def respond_def)
next
  case True
  show ?thesis
  proof (cases "hashPassword (js_get b ''password'')")
    case (Inl e)
    then show ?thesis
      using assms True
      by (auto simp: admin_register_def admin_register_catch_def log_event_def Let_def
                     query_frame_def respond_def
               split: if_splits)
  next
    case (Inr hh)
    obtain res wi where i: "pool_insert_admin (js_get b ''email'') hh (log_event EvHash w) = (res, wi)"
      by (cases "pool_insert_admin (js_get b ''email'') hh (log_event EvHash w)")
    show ?thesis
      using assms True Inr i
      by (cases res)
         (auto simp: admin_register_def admin_register_catch_def Let_def respond_def
               split: if_splits)
  qed
qed





lemma admin_register_clean:
  assumes "admin_register b w = (r, w')" and "clean_pool w"
  shows "clean_pool w'"
proof -
  let ?w0 = "log_event EvHash w"
  let ?em = "js_get b ''email''"
  have cp0: "clean_pool ?w0"
    using assms(2) by (simp add: clean_pool_def log_event_def)
  have t0: "tx (fst (pool_take ?w0)) = None"
    using cp0 by (cases "idle ?w0") (auto simp: pool_take_def clean_pool_def)
  from admin_register_world [OF assms(1)]
  consider (q) "query_frame w w'"
    | (err) hh wi err where "pool_insert_admin ?em hh ?w0 = (Inl err, wi)"
        "w' = wi \<or> w' = log_event EvConsoleError wi"
    | (ok) hh where "pool_insert_admin ?em hh ?w0 = (Inr (), w')"
    by blast
  then show ?thesis
  proof cases
    case q
    then show ?thesis using assms(2) query_frame_clean by blast
  next
    case (err hh wi err)
    have "query_frame ?w0 wi"
      using pool_insert_admin_effect [OF err(1)] by auto
    then have "query_frame ?w0 w'"
      using err(2) query_frame_log by auto
    then show ?thesis using cp0 query_frame_clean by blast
  next
    case (ok hh)
    from pool_insert_admin_effect [OF ok] t0 obtain c where
      "idle w' = c # tl (idle ?w0)" "tx c = None"
      by auto
    then show ?thesis
      using clean_pool_Cons [OF cp0] by blast
  qed
qed

text \<open>
  A pool in which no transaction is left open stays so with every request that is
  answered.
\<close>

lemma serve_keeps_clean_pool:
  assumes "clean_pool w" and "serve cfg tz req w = (Some r, w')"
  shows "clean_pool w'"
proof (cases req)
  case (PostAdminRegister b)
  then show ?thesis
    using assms admin_register_clean [of b w "fst (admin_register b w)" "snd (admin_register b w)"]
    by (auto simp: serve_def split: prod.splits)
next
  case (PostAdminLogin b)
  then have "w' = snd (admin_login cfg b w)"
    using assms(2) by (auto simp: serve_def split: prod.splits)
  then show ?thesis
    using query_frame_clean [OF admin_login_frame [of w cfg b] assms(1)] by simp
next
  case (GetAdminDashboard auth)
  then have "w' = snd (dashboard_route cfg auth w)"
    using assms(2) by (auto simp: serve_def split: prod.splits)
  then show ?thesis
    using query_frame_clean [OF dashboard_route_frame [of w cfg auth] assms(1)] by simp
next
  case (PostUserRegister b)
  then have u: "user_register tz b w = (Some r, w')"
    using assms(2) by (simp add: serve_def)
  show ?thesis
  proof (cases "truthy (js_get b ''first_name'') \<and> truthy (js_get b ''last_name'')
                \<and> truthy (js_get b ''email'')")
    case True
    then show ?thesis
      using user_register_outcome [of b tz w "Some r" w'] u assms(1) by auto
  next
    case False
    then show ?thesis
      using u assms(1) by (auto simp: user_register_def)
  qed
qed







lemma admin_login_401_for_strings:
  assumes "truthy email" and "p \<noteq> []" and "calm 1 w"
    and "b ''email'' = Some email" and "b ''password'' = Some (JStr p)"
    and "tbl_admin_hashes email (pool_view w) = []
         \<or> (\<exists>h hs. tbl_admin_hashes email (pool_view w) = h # hs
                     \<and> h \<noteq> to_hex (sha256 (utf8_bytes p)))"
  shows "fst (admin_login cfg b w) = respond 401 (Message ''Email atau password salah.'')"
proof -
  obtain res w1 where s: "pool_select_admin_hashes email w = (res, w1)"
    by (cases "pool_select_admin_hashes email w")
  have "res = Inr (tbl_admin_hashes email (pool_view w))"
    using pool_select_admin_hashes_frame [OF s] assms(3) by simp
  then show ?thesis
    using assms(1,2,4,5,6) s
    by (auto simp: admin_login_def Let_def js_get_def)
qed

text \<open>
  Claim C2. Admin login with an unknown email and admin login with a known email and a
  wrong password are to be answered alike, 401 with one message. For a password that is a
  string this holds (\<open>admin_login_401_for_strings\<close>). For a truthy password that is not a
  string it does not: the lookup comes first, and \<open>hashPassword\<close> throws only when a row
  was found, so a known email is answered 500 and an unknown one 401.
\<close>

theorem admin_login_nonstring_password_leaks:
  "fst (admin_login sample_config
          [''email'' \<mapsto> JStr ''root@example.com'', ''password'' \<mapsto> JNum 123456] sample_world)
     = respond 500 (Message ''Gagal login.'')
   \<and> fst (admin_login sample_config
          [''email'' \<mapsto> JStr ''nobody@example.com'', ''password'' \<mapsto> JNum 123456] sample_world)
     = respond 401 (Message ''Email atau password salah.'')
   \<and> fst (admin_login sample_config
          [''email'' \<mapsto> JStr ''root@example.com'', ''password'' \<mapsto> JStr ''wrong''] sample_world)
     = respond 401 (Message ''Email atau password salah.'')"
  by code_simp

theorem admin_login_nonstring_password_leaks_witness:
  "status (fst (admin_login sample_config
          [''email'' \<mapsto> JStr ''root@example.com'', ''password'' \<mapsto> JNum 123456] sample_world))
     = 500
   \<and> status (fst (admin_login sample_config
          [''email'' \<mapsto> JStr ''nobody@example.com'', ''password'' \<mapsto> JNum 123456] sample_world))
     = 401"
  using admin_login_nonstring_password_leaks by (simp add: respond_def)

subsection \<open>The API key\<close>

lemma hex_digit_is_hex: "is_hex_char (hex_digit n)"
proof -
  have "n mod 16 < length ''0123456789abcdef''" by simp
  then have "''0123456789abcdef'' ! (n mod 16) \<in> set ''0123456789abcdef''"
    by (rule nth_mem)
  then show ?thesis by (simp only: hex_digit_def is_hex_char_def)
qed

lemma to_hex_length: "length (to_hex bs) = 2 * length bs"
  by (induction bs) (simp_all add: to_hex_def byte_hex_def)

lemma to_hex_chars: "list_all is_hex_char (to_hex bs)"
  by (induction bs) (simp_all add: to_hex_def byte_hex_def hex_digit_is_hex)

lemma generateApiKey_shape:
  "length (fst (generateApiKey w)) = 64 \<and> list_all is_hex_char (fst (generateApiKey w))"
  by (simp add: generateApiKey_def randomBytes_def to_hex_length to_hex_chars)

text \<open>
  Claim C5. Every value of generateApiKey is 64 characters long and made of the
  characters \<^verbatim>\<open>0-9a-f\<close> only (the hexadecimal rendering of 32 random bytes), and the
  apiKey of a 201 answer of user registration is the value generateApiKey returned.
\<close>

theorem generateApiKey_hex64:
  "length (fst (generateApiKey w)) = 64 \<and> list_all is_hex_char (fst (generateApiKey w))
   \<and> (\<forall>r w'. user_register tz b w = (Some r, w') \<and> status r = 201 \<longrightarrow>
         (\<exists>exp. body r = RegisteredBody ''Registrasi berhasil. API Key dibuat.''
                             (fst (generateApiKey w)) exp))"
proof (intro conjI allI impI)
  show "length (fst (generateApiKey w)) = 64"
    using generateApiKey_shape by blast
  show "list_all is_hex_char (fst (generateApiKey w))"
    using generateApiKey_shape by blast
next
  fix r w'
  assume a: "user_register tz b w = (Some r, w') \<and> status r = 201"
  show "\<exists>exp. body r = RegisteredBody ''Registrasi berhasil. API Key dibuat.''
                             (fst (generateApiKey w)) exp"
  proof (cases "truthy (js_get b ''first_name'') \<and> truthy (js_get b ''last_name'')
                \<and> truthy (js_get b ''email'')")
    case True
    then show ?thesis
      using user_register_outcome [of b tz w "Some r" w'] a
      by (auto simp: respond_def)
  next
    case False
    then show ?thesis
      using a by (auto simp: user_register_def respond_def Let_def)
  qed
qed

theorem generateApiKey_hex64_witness:
  "fst (user_register utc_zone ada_body sample_world) =
     Some (respond 201 (RegisteredBody ''Registrasi berhasil. API Key dibuat.''
       (fst (generateApiKey sample_world)) ''2024-03-31 17:00:00''))
   \<and> length (fst (generateApiKey sample_world)) = 64
   \<and> list_all is_hex_char (fst (generateApiKey sample_world))
   \<and> fst (generateApiKey sample_world) =
       ''030a11181f262d343b424950575e656c737a81888f969da4abb2b9c0c7ced5dc''"
proof -
  have k: "fst (generateApiKey sample_world) =
       ''030a11181f262d343b424950575e656c737a81888f969da4abb2b9c0c7ced5dc''"
    by code_simp
  show ?thesis
    using generateApiKey_hex64 [of sample_world utc_zone ada_body] k sample_registration
    by simp
qed

subsection \<open>The dashboard route\<close>

lemma adminAuth_401:
  "auth = None \<or> (\<exists>h. auth = Some h \<and> \<not> startsWith h ''Bearer '')
   \<Longrightarrow> adminAuthMiddleware secret auth
         = Respond (respond 401 (Message ''Autentikasi diperlukan.''))"
  by (auto simp: adminAuthMiddleware_def)

lemma admin_dashboard_calm:
  assumes "calm 2 w"
  shows "fst (admin_dashboard w) =
           respond 200 (DashboardBody (tbl_users_view (pool_view w)) (tbl_keys_view (pool_view w)))"
proof -
  have c1: "calm 1 w" using assms calm_1 [of 1 w] by (simp add: numeral_2_eq_2)
  obtain r1 w1 where a: "pool_select_users w = (r1, w1)"
    by (cases "pool_select_users w")
  note fa = pool_select_users_frame [OF a]
  have "calm 1 w1"
    using calm_tl [of 1 w w1] assms fa by (simp add: numeral_2_eq_2)
  obtain r2 w2 where b: "pool_select_keys w1 = (r2, w2)"
    by (cases "pool_select_keys w1")
  note fb = pool_select_keys_frame [OF b]
  have v: "pool_view w1 = pool_view w"
    using fa query_frame_view by blast
  show ?thesis
    using a b fa fb c1 \<open>calm 1 w1\<close> v by (simp add: admin_dashboard_def)
qed

text \<open>
  Claim C4. On the dashboard route the middleware answers 401 when the Authorization
  header is missing or does not start with \<^verbatim>\<open>Bearer \<close>, answers 403 when the header is
  well-formed and its token is not the configured secret (the store is not touched in
  either case), and hands the request to the handler exactly when the token is the
  secret; the handler then answers 200 with both lists when the store does not fail its
  two queries. The lists are the rows as the connection that \<^verbatim>\<open>pool.query\<close> takes from
  the pool sees them: the committed rows, when no idle connection has a transaction left
  open.
\<close>

theorem dashboard_auth_outcomes:
  "(auth = None \<or> (\<exists>h. auth = Some h \<and> \<not> startsWith h ''Bearer '') \<longrightarrow>
      dashboard_route cfg auth w = (respond 401 (Message ''Autentikasi diperlukan.''), w))
   \<and> (\<forall>h. auth = Some h \<and> startsWith h ''Bearer ''
          \<and> Some (first_space_token h) \<noteq> ADMIN_TOKEN_DUMMY cfg \<longrightarrow>
        dashboard_route cfg auth w = (respond 403 (Message ''Token admin tidak valid.''), w))
   \<and> (\<forall>h. auth = Some h \<and> startsWith h ''Bearer ''
          \<and> Some (first_space_token h) = ADMIN_TOKEN_DUMMY cfg \<longrightarrow>
        dashboard_route cfg auth w = admin_dashboard w
        \<and> (calm 2 w \<longrightarrow>
             fst (admin_dashboard w) =
               respond 200 (DashboardBody (tbl_users_view (pool_view w))
                                          (tbl_keys_view (pool_view w))))
        \<and> (clean_pool w \<longrightarrow> pool_view w = db w))
   \<and> (adminAuthMiddleware (ADMIN_TOKEN_DUMMY cfg) auth = Next \<longleftrightarrow>
        (\<exists>h. auth = Some h \<and> startsWith h ''Bearer ''
              \<and> Some (first_space_token h) = ADMIN_TOKEN_DUMMY cfg))"
proof (intro conjI allI impI)
  assume "auth = None \<or> (\<exists>h. auth = Some h \<and> \<not> startsWith h ''Bearer '')"
  from adminAuth_401 [OF this]
  show "dashboard_route cfg auth w = (respond 401 (Message ''Autentikasi diperlukan.''), w)"
    by (simp add: dashboard_route_def)
next
  fix h
  assume "auth = Some h \<and> startsWith h ''Bearer ''
          \<and> Some (first_space_token h) \<noteq> ADMIN_TOKEN_DUMMY cfg"
  then show "dashboard_route cfg auth w = (respond 403 (Message ''Token admin tidak valid.''), w)"
    using adminAuth_bearer [of h "ADMIN_TOKEN_DUMMY cfg"]
    by (auto simp: dashboard_route_def)
next
  fix h
  assume "auth = Some h \<and> startsWith h ''Bearer ''
          \<and> Some (first_space_token h) = ADMIN_TOKEN_DUMMY cfg"
  then show "dashboard_route cfg auth w = admin_dashboard w"
    using adminAuth_bearer [of h "ADMIN_TOKEN_DUMMY cfg"]
    by (auto simp: dashboard_route_def)
next
  fix h
  assume "calm 2 w"
  then show "fst (admin_dashboard w) =
               respond 200 (DashboardBody (tbl_users_view (pool_view w))
                                          (tbl_keys_view (pool_view w)))"
    by (rule admin_dashboard_calm)
next
  fix h
  assume "clean_pool w"
  then show "pool_view w = db w"
    by (rule pool_view_clean)
next
  show "adminAuthMiddleware (ADMIN_TOKEN_DUMMY cfg) auth = Next \<longleftrightarrow>
        (\<exists>h. auth = Some h \<and> startsWith h ''Bearer ''
              \<and> Some (first_space_token h) = ADMIN_TOKEN_DUMMY cfg)"
  proof (cases auth)
    case None
    then show ?thesis by (simp add: adminAuthMiddleware_def)
  next
    case (Some h)
    show ?thesis
    proof (cases "startsWith h ''Bearer ''")
      case True
      then show ?thesis
        using Some adminAuth_bearer [of h "ADMIN_TOKEN_DUMMY cfg"] by auto
    next
      case False
      then show ?thesis
        using Some adminAuth_401 [of auth "ADMIN_TOKEN_DUMMY cfg"] by auto
    qed
  qed
qed

lemma sample_dashboard:
  "fst (dashboard_route sample_config (Some ''Bearer s3cret'') sample_world) =
     respond 200 (DashboardBody
       [\<lparr> uv_id = 1, uv_first_name = JStr ''Grace'', uv_last_name = JStr ''Hopper'',
           uv_email = JStr ''grace@example.com'' \<rparr>]
       [\<lparr> kv_id = 1, kv_user_id = 1,
           kv_api_key = ''00112233445566778899aabbccddeeff00112233445566778899aabbccddeeff'',
           kv_expires_at = ''2024-03-28 02:13:20'' \<rparr>])"
  by code_simp

theorem dashboard_auth_outcomes_witness:
  "dashboard_route sample_config None sample_world =
     (respond 401 (Message ''Autentikasi diperlukan.''), sample_world)
   \<and> dashboard_route sample_config (Some ''Basic s3cret'') sample_world =
     (respond 401 (Message ''Autentikasi diperlukan.''), sample_world)
   \<and> dashboard_route sample_config (Some ''Bearer guess'') sample_world =
     (respond 403 (Message ''Token admin tidak valid.''), sample_world)
   \<and> fst (dashboard_route sample_config (Some ''Bearer s3cret'') sample_world) =
     respond 200 (DashboardBody
       [\<lparr> uv_id = 1, uv_first_name = JStr ''Grace'', uv_last_name = JStr ''Hopper'',
           uv_email = JStr ''grace@example.com'' \<rparr>]
       [\<lparr> kv_id = 1, kv_user_id = 1,
           kv_api_key = ''00112233445566778899aabbccddeeff00112233445566778899aabbccddeeff'',
           kv_expires_at = ''2024-03-28 02:13:20'' \<rparr>])"
proof -
  have tok: "ADMIN_TOKEN_DUMMY sample_config = Some ''s3cret''"
    by (simp add: sample_config_def load_config_def)
  have a: "dashboard_route sample_config None sample_world =
     (respond 401 (Message ''Autentikasi diperlukan.''), sample_world)"
    using dashboard_auth_outcomes [of None sample_config sample_world] by simp
  have b: "dashboard_route sample_config (Some ''Basic s3cret'') sample_world =
     (respond 401 (Message ''Autentikasi diperlukan.''), sample_world)"
    using dashboard_auth_outcomes [of "Some ''Basic s3cret''" sample_config sample_world]
    by (simp add: startsWith_def)
  have c: "dashboard_route sample_config (Some ''Bearer guess'') sample_world =
     (respond 403 (Message ''Token admin tidak valid.''), sample_world)"
    using dashboard_auth_outcomes [of "Some ''Bearer guess''" sample_config sample_world] tok
    by (simp add: startsWith_def first_space_token_def)
  show ?thesis
    using a b c sample_dashboard by simp
qed

subsection \<open>The route table\<close>

text \<open>
  Claim C8, as amended. The four endpoints are served under the path prefix \<^verbatim>\<open>/api\<close>,
  which is the constant \<open>API_PREFIX\<close> of the source: whatever the environment holds, the
  path of every route is \<^verbatim>\<open>/api\<close> followed by the endpoint path of the interface table.
  The prefix is not read from the configuration.
\<close>

theorem routes_under_fixed_prefix:
  "map (\<lambda>r. (route_method r, route_path r)) (server_routes (start_server env)) =
     map (\<lambda>(m, p). (m, ''/api'' @ p)) interface_table
   \<and> map (\<lambda>r. (route_method r, route_path r)) (server_routes (start_server env)) =
     map (\<lambda>(m, p). (m, API_PREFIX @ p)) interface_table"
  by (simp add: start_server_def routes_def interface_table_def API_PREFIX_def)

theorem routes_under_fixed_prefix_witness:
  "map (\<lambda>r. (route_method r, route_path r))
     (server_routes (start_server [''API_PREFIX'' \<mapsto> ''/v2'', ''PORT'' \<mapsto> ''8080''])) =
     [(POST, ''/api/admin/register''), (POST, ''/api/admin/login''),
      (GET, ''/api/admin/dashboard''), (POST, ''/api/user/register'')]"
  using routes_under_fixed_prefix [of "[''API_PREFIX'' \<mapsto> ''/v2'', ''PORT'' \<mapsto> ''8080'']"]
  by (simp add: interface_table_def)

text \<open>
  Claim C8 as stated calls the prefix configurable, with \<^verbatim>\<open>/api\<close> as its default. An
  environment that sets a prefix (and a port) changes the port, not the paths.
\<close>

theorem prefix_not_configurable_counterexample:
  "map route_path
     (server_routes (start_server [''API_PREFIX'' \<mapsto> ''/v2'', ''PORT'' \<mapsto> ''8080''])) =
     [''/api/admin/register'', ''/api/admin/login'', ''/api/admin/dashboard'',
      ''/api/user/register'']
   \<and> port (server_config (start_server [''API_PREFIX'' \<mapsto> ''/v2'', ''PORT'' \<mapsto> ''8080'']))
       = JStr ''8080''"
  by (simp add: start_server_def routes_def API_PREFIX_def load_config_def)

subsection \<open>Validation of required fields\<close>

text \<open>
  Claim C9. Every POST handler tests its required fields for truthiness: when one of
  them is falsy (missing, the empty string, \<^verbatim>\<open>null\<close>, \<^verbatim>\<open>false\<close>, \<^verbatim>\<open>0\<close>) the handler
  answers 400 and the world is exactly the one before the request, so nothing was
  hashed, no store call was made (the log of calls is part of the world) and the tables
  are unchanged. A falsy value in a required field gives the same result as the body
  without that field.
\<close>

theorem falsy_required_field_rejected:
  "(\<not> truthy (js_get b ''email'') \<or> \<not> truthy (js_get b ''password'') \<longrightarrow>
      admin_register b w = (respond 400 (Message ''Email dan password diperlukan.''), w)
      \<and> admin_login cfg b w = (respond 400 (Message ''Email dan password diperlukan.''), w))
   \<and> (\<not> truthy (js_get b ''first_name'') \<or> \<not> truthy (js_get b ''last_name'')
        \<or> \<not> truthy (js_get b ''email'') \<longrightarrow>
      user_register tz b w =
        (Some (respond 400 (Message ''Nama depan, nama belakang, dan email diperlukan.'')), w))
   \<and> (\<not> truthy v \<and> (k = ''email'' \<or> k = ''password'') \<longrightarrow>
        admin_register (b(k \<mapsto> v)) w = admin_register (b(k := None)) w
        \<and> admin_login cfg (b(k \<mapsto> v)) w = admin_login cfg (b(k := None)) w)
   \<and> (\<not> truthy v \<and> (k = ''first_name'' \<or> k = ''last_name'' \<or> k = ''email'') \<longrightarrow>
        user_register tz (b(k \<mapsto> v)) w = user_register tz (b(k := None)) w)"
  by (auto simp: admin_register_def admin_login_def user_register_def js_get_def Let_def)

theorem falsy_required_field_rejected_witness:
  "admin_register [''email'' \<mapsto> JStr '''', ''password'' \<mapsto> JStr ''hunter2''] sample_world =
     (respond 400 (Message ''Email dan password diperlukan.''), sample_world)
   \<and> admin_login sample_config [''email'' \<mapsto> JStr ''root@example.com'', ''password'' \<mapsto> JNum 0]
       sample_world =
     (respond 400 (Message ''Email dan password diperlukan.''), sample_world)
   \<and> user_register utc_zone (ada_body(''last_name'' \<mapsto> JStr '''')) sample_world =
     (Some (respond 400 (Message ''Nama depan, nama belakang, dan email diperlukan.'')),
      sample_world)
   \<and> user_register utc_zone (ada_body(''last_name'' \<mapsto> JNull)) sample_world =
     user_register utc_zone (ada_body(''last_name'' := None)) sample_world"
  using falsy_required_field_rejected
          [of "[''email'' \<mapsto> JStr '''', ''password'' \<mapsto> JStr ''hunter2'']" sample_world
              sample_config utc_zone JNull "''last_name''"]
        falsy_required_field_rejected
          [of "[''email'' \<mapsto> JStr ''root@example.com'', ''password'' \<mapsto> JNum 0]" sample_world
              sample_config utc_zone JNull "''last_name''"]
        falsy_required_field_rejected
          [of "ada_body(''last_name'' \<mapsto> JStr '''')" sample_world
              sample_config utc_zone JNull "''last_name''"]
        falsy_required_field_rejected
          [of ada_body sample_world sample_config utc_zone JNull "''last_name''"]
  by (simp add: js_get_def)

subsection \<open>The expiration date\<close>

lemma div_bounds:
  fixes x k :: int
  assumes "0 < k"
  shows "k * (x div k) \<le> x \<and> x < k * (x div k) + k"
  using mult_div_mod_eq [of k x] pos_mod_sign [OF assms, of x] pos_mod_bound [OF assms, of x]
  by linarith

lemma div_succ:
  fixes x k :: int
  assumes k: "0 < k"
  shows "(x + 1) div k = x div k + (if (x + 1) mod k = 0 then 1 else 0)"
proof -
  define q where "q = x div k"
  define r where "r = x mod k"
  have x: "x = k * q + r" and r: "0 \<le> r" "r < k"
    using k by (simp_all add: q_def r_def)
  show ?thesis
  proof (cases "r = k - 1")
    case True
    have e: "x + 1 = k * (q + 1) + 0"
      using x True by (simp add: algebra_simps)
    have "(x + 1) div k = q + 1"
      using int_div_pos_eq [OF e] k by simp
    moreover have "(x + 1) mod k = 0"
      using int_mod_pos_eq [OF e] k by simp
    ultimately show ?thesis by (simp add: q_def)
  next
    case False
    have e: "x + 1 = k * q + (r + 1)"
      using x by simp
    have b: "0 \<le> r + 1" "r + 1 < k"
      using r False by simp_all
    have "(x + 1) div k = q"
      using int_div_pos_eq [OF e b] .
    moreover have "(x + 1) mod k = r + 1"
      using int_mod_pos_eq [OF e b] .
    ultimately show ?thesis using r by (simp add: q_def)
  qed
qed

lemma mod4_shift: "((y::int) - 1968) mod 4 = 0 \<longleftrightarrow> y mod 4 = 0"
  using mod_mult_self1 [of "y - 1968" 492 4] by simp

lemma mod100_shift: "((y::int) - 1900) mod 100 = 0 \<longleftrightarrow> y mod 100 = 0"
  using mod_mult_self1 [of "y - 1900" 19 100] by simp

lemma mod400_shift: "((y::int) - 1600) mod 400 = 0 \<longleftrightarrow> y mod 400 = 0"
  using mod_mult_self1 [of "y - 1600" 4 400] by simp

lemma mod400_100: "(y::int) mod 400 = 0 \<Longrightarrow> y mod 100 = 0"
proof -
  assume "y mod 400 = 0"
  then have "400 dvd y" by (simp add: mod_eq_0_iff_dvd)
  moreover have "(100::int) dvd 400" by simp
  ultimately have "100 dvd y" by (rule dvd_trans [rotated])
  then show ?thesis by (simp add: mod_eq_0_iff_dvd)
qed

lemma mod100_4: "(y::int) mod 100 = 0 \<Longrightarrow> y mod 4 = 0"
proof -
  assume "y mod 100 = 0"
  then have "100 dvd y" by (simp add: mod_eq_0_iff_dvd)
  moreover have "(4::int) dvd 100" by simp
  ultimately have "4 dvd y" by (rule dvd_trans [rotated])
  then show ?thesis by (simp add: mod_eq_0_iff_dvd)
qed

lemma DayFromYear_step: "DayFromYear (y + 1) = DayFromYear y + DaysInYear y"
proof -
  have a: "(y + 1 - 1969) div 4 = (y - 1969) div 4 + (if y mod 4 = 0 then 1 else 0)"
    using div_succ [of 4 "y - 1969"] mod4_shift [of y] by (simp add: algebra_simps)
  have b: "(y + 1 - 1901) div 100 = (y - 1901) div 100 + (if y mod 100 = 0 then 1 else 0)"
    using div_succ [of 100 "y - 1901"] mod100_shift [of y] by (simp add: algebra_simps)
  have c: "(y + 1 - 1601) div 400 = (y - 1601) div 400 + (if y mod 400 = 0 then 1 else 0)"
    using div_succ [of 400 "y - 1601"] mod400_shift [of y] by (simp add: algebra_simps)
  show ?thesis
    unfolding DayFromYear_def DaysInYear_def a b c
    using mod400_100 [of y] mod100_4 [of y] by auto
qed

lemma year_estimate_lower:
  fixes d :: int
  shows "DayFromYear (1970 + (400 * d) div 146097 - 1) \<le> d"
proof -
  define q where "q = (400 * d) div 146097"
  define a where "a = q div 4"
  define b where "b = (q + 68) div 100"
  define c where "c = (q + 368) div 400"
  have q: "146097 * q \<le> 400 * d"
    using div_bounds [of 146097 "400 * d"] by (simp add: q_def)
  have a: "4 * a \<le> q" using div_bounds [of 4 q] by (simp add: a_def)
  have b: "q + 68 < 100 * b + 100" using div_bounds [of 100 "q + 68"] by (simp add: b_def)
  have c: "400 * c \<le> q + 368" using div_bounds [of 400 "q + 368"] by (simp add: c_def)
  have "365 * q - 365 + a - b + c \<le> d"
    using q a b c by linarith
  then show ?thesis
    by (simp add: DayFromYear_def q_def a_def b_def c_def algebra_simps)
qed

lemma year_estimate_upper:
  fixes d :: int
  shows "d < DayFromYear (1970 + (400 * d) div 146097 + 2)"
proof -
  define q where "q = (400 * d) div 146097"
  define a where "a = (q + 3) div 4"
  define b where "b = (q + 71) div 100"
  define c where "c = (q + 371) div 400"
  have q: "400 * d < 146097 * q + 146097"
    using div_bounds [of 146097 "400 * d"] by (simp add: q_def)
  have a: "q + 3 < 4 * a + 4" using div_bounds [of 4 "q + 3"] by (simp add: a_def)
  have b: "100 * b \<le> q + 71" using div_bounds [of 100 "q + 71"] by (simp add: b_def)
  have c: "q + 371 < 400 * c + 400" using div_bounds [of 400 "q + 371"] by (simp add: c_def)
  have "d < 365 * q + 730 + a - b + c"
    using q a b c by linarith
  then show ?thesis
    by (simp add: DayFromYear_def q_def a_def b_def c_def algebra_simps)
qed

lemma YearFromTime_correct:
  "DayFromYear (YearFromTime t) \<le> Day t \<and> Day t < DayFromYear (YearFromTime t + 1)"
proof -
  define d where "d = Day t"
  define y where "y = 1970 + (400 * d) div 146097"
  have lo: "DayFromYear (y - 1) \<le> d"
    using year_estimate_lower [of d] by (simp add: y_def)
  have hi: "d < DayFromYear (y + 1 + 1)"
    using year_estimate_upper [of d] by (simp add: y_def algebra_simps)
  have Y: "YearFromTime t =
      (if d < DayFromYear y then y - 1 else if DayFromYear (y + 1) \<le> d then y + 1 else y)"
    by (simp add: YearFromTime_def Let_def d_def y_def)
  show ?thesis
    unfolding Y d_def [symmetric] using lo hi by auto
qed

lemma DayWithinYear_range:
  "0 \<le> DayWithinYear t \<and> DayWithinYear t < 365 + InLeapYear t"
proof -
  have "DaysInYear (YearFromTime t) = 365 + InLeapYear t"
    by (simp add: InLeapYear_def DaysInYear_def)
  then show ?thesis
    using YearFromTime_correct [of t] DayFromYear_step [of "YearFromTime t"]
    by (simp add: DayWithinYear_def)
qed

lemma InLeapYear_range: "InLeapYear t = 0 \<or> InLeapYear t = 1"
  by (simp add: InLeapYear_def)

lemma MonthFromTime_range: "0 \<le> MonthFromTime t \<and> MonthFromTime t \<le> 11"
  by (simp add: MonthFromTime_def Let_def)

lemma DateFromTime_range: "1 \<le> DateFromTime t \<and> DateFromTime t \<le> 31"
  using DayWithinYear_range [of t] InLeapYear_range [of t]
  unfolding DateFromTime_def MonthFromTime_def days_before_month_def Let_def
  by auto

lemma MakeDay_add:
  "MakeDay (YearFromTime t) (MonthFromTime t) (DateFromTime t + n) = Day t + n"
proof -
  have m: "MonthFromTime t div 12 = 0" "MonthFromTime t mod 12 = MonthFromTime t"
    using MonthFromTime_range [of t] by simp_all
  show ?thesis
    by (simp add: MakeDay_def Let_def m DateFromTime_def DayWithinYear_def InLeapYear_def)
qed

lemma MakeDate_Day: "MakeDate (Day t + n) (TimeWithinDay t) = t + n * msPerDay"
proof -
  have "t div msPerDay * msPerDay + t mod msPerDay = t"
    by simp
  then show ?thesis
    by (simp add: MakeDate_def Day_def TimeWithinDay_def algebra_simps)
qed

lemma setDate_adds_days:
  "date_setDate tz (Some t0) (map_option (\<lambda>g. g + n) (date_getDate tz (Some t0))) =
     TimeClip (UTC tz (LocalTime tz t0 + n * msPerDay))"
  by (simp add: date_setDate_def date_getDate_def Let_def MakeDay_add MakeDate_Day)


lemma YearFromTime_in_range:
  assumes "0 \<le> t" and "t < 253402300800000"
  shows "1970 \<le> YearFromTime t \<and> YearFromTime t \<le> 9999"
proof -
  define d where "d = Day t"
  define y where "y = 1970 + (400 * d) div 146097"
  have d: "0 \<le> d" "d < 2932897"
    using assms by (simp_all add: d_def Day_def msPerDay_def pos_imp_zdiv_nonneg_iff
                                  div_less_iff_less_mult)
  have q: "0 \<le> (400 * d) div 146097" "(400 * d) div 146097 < 8030"
    using d by (simp_all add: pos_imp_zdiv_nonneg_iff div_less_iff_less_mult)
  have y: "1970 \<le> y" "y \<le> 9999"
    using q by (simp_all add: y_def)
  have e0: "DayFromYear 1970 = 0" and e1: "DayFromYear 10000 = 2932897"
    by (simp_all add: DayFromYear_def)
  have Y: "YearFromTime t =
      (if d < DayFromYear y then y - 1 else if DayFromYear (y + 1) \<le> d then y + 1 else y)"
    by (simp add: YearFromTime_def Let_def d_def y_def)
  have lo: "y = 1970 \<Longrightarrow> \<not> d < DayFromYear y"
    using d e0 by simp
  have hi: "y = 9999 \<Longrightarrow> \<not> DayFromYear (y + 1) \<le> d"
    using d e1 by simp
  show ?thesis
    unfolding Y using y lo hi by (cases "y = 1970"; cases "y = 9999") auto
qed

lemma is_digit_digit_char: "is_digit (digit_char d)"
proof -
  have "d mod 10 < length ''0123456789''" by simp
  then have "''0123456789'' ! (d mod 10) \<in> set ''0123456789''"
    by (rule nth_mem)
  then show ?thesis by (simp only: digit_char_def is_digit_def)
qed

lemma digit_char_0: "digit_char 0 = CHR ''0''"
  by (simp add: digit_char_def)

lemma dec_1: "n < 10 \<Longrightarrow> dec n = [digit_char n]"
  by (subst dec.simps) simp

lemma dec_2: "10 \<le> n \<Longrightarrow> n < 100 \<Longrightarrow> dec n = [digit_char (n div 10), digit_char (n mod 10)]"
  by (subst dec.simps) (simp add: dec_1)

lemma dec_3:
  "100 \<le> n \<Longrightarrow> n < 1000 \<Longrightarrow>
     dec n = [digit_char (n div 10 div 10), digit_char (n div 10 mod 10), digit_char (n mod 10)]"
  by (subst dec.simps) (simp add: dec_2)

lemma dec_4:
  "1000 \<le> n \<Longrightarrow> n < 10000 \<Longrightarrow>
     dec n = [digit_char (n div 10 div 10 div 10), digit_char (n div 10 div 10 mod 10),
              digit_char (n div 10 mod 10), digit_char (n mod 10)]"
  by (subst dec.simps) (simp add: dec_3)

lemma pad2_digits:
  assumes "0 \<le> n" and "n < 100"
  shows "\<exists>a b. pad2 n = [a, b] \<and> is_digit a \<and> is_digit b"
proof (cases "nat n < 10")
  case True
  then have "pad2 n = [CHR ''0'', digit_char (nat n)]"
    by (simp add: pad2_def padStart_def dec_1)
  then show ?thesis
    using is_digit_digit_char [of 0] is_digit_digit_char [of "nat n"]
    by (simp add: digit_char_0)
next
  case False
  then have "pad2 n = [digit_char (nat n div 10), digit_char (nat n mod 10)]"
    using assms by (simp add: pad2_def padStart_def dec_2)
  then show ?thesis
    using is_digit_digit_char by simp
qed

lemma iso_year_digits:
  assumes "0 \<le> y" and "y \<le> 9999"
  shows "\<exists>a b c d. iso_year y = [a, b, c, d] \<and> is_digit a \<and> is_digit b \<and> is_digit c
                    \<and> is_digit d"
proof -
  define n where "n = nat y"
  have n: "n < 10000" using assms by (simp add: n_def)
  have z: "is_digit CHR ''0''" using is_digit_digit_char [of 0] by (simp add: digit_char_0)
  have iy: "iso_year y = padStart 4 CHR ''0'' (dec n)"
    using assms by (simp add: iso_year_def n_def)
  consider "n < 10" | "10 \<le> n \<and> n < 100" | "100 \<le> n \<and> n < 1000" | "1000 \<le> n \<and> n < 10000"
    using n by linarith
  then show ?thesis
  proof cases
    case 1
    then have "iso_year y = [CHR ''0'', CHR ''0'', CHR ''0'', digit_char n]"
      by (simp add: iy padStart_def dec_1 numeral_3_eq_3)
    then show ?thesis using z is_digit_digit_char by simp
  next
    case 2
    then have "iso_year y = [CHR ''0'', CHR ''0'', digit_char (n div 10), digit_char (n mod 10)]"
      by (simp add: iy padStart_def dec_2 numeral_2_eq_2)
    then show ?thesis using z is_digit_digit_char by simp
  next
    case 3
    then have "iso_year y = [CHR ''0'', digit_char (n div 10 div 10), digit_char (n div 10 mod 10),
                             digit_char (n mod 10)]"
      by (simp add: iy padStart_def dec_3)
    then show ?thesis using z is_digit_digit_char by simp
  next
    case 4
    then have "iso_year y = [digit_char (n div 10 div 10 div 10), digit_char (n div 10 div 10 mod 10),
                             digit_char (n div 10 mod 10), digit_char (n mod 10)]"
      by (simp add: iy padStart_def dec_4)
    then show ?thesis using is_digit_digit_char by simp
  qed
qed

lemma is_digit_not_T: "is_digit c \<Longrightarrow> c \<noteq> CHR ''T''"
  by (auto simp: is_digit_def)

lemma time_fields_range:
  "0 \<le> HourFromTime t \<and> HourFromTime t < 100 \<and> 0 \<le> MinFromTime t \<and> MinFromTime t < 100
   \<and> 0 \<le> SecFromTime t \<and> SecFromTime t < 100"
proof -
  have "HourFromTime t < 24" "MinFromTime t < 60" "SecFromTime t < 60"
    by (simp_all add: HourFromTime_def MinFromTime_def SecFromTime_def)
  moreover have "0 \<le> HourFromTime t" "0 \<le> MinFromTime t" "0 \<le> SecFromTime t"
    by (simp_all add: HourFromTime_def MinFromTime_def SecFromTime_def)
  ultimately show ?thesis by linarith
qed

lemma render_mysql_datetime:
  assumes "0 \<le> YearFromTime t" and "YearFromTime t \<le> 9999"
  shows "\<exists>iso. date_toISOString (Some t) = Inr iso
           \<and> replace_first CHR ''T'' CHR '' '' (take 19 iso) = mysql_datetime_utc t"
    and "is_mysql_datetime (mysql_datetime_utc t)"
proof -
  obtain y1 y2 y3 y4 where y: "iso_year (YearFromTime t) = [y1, y2, y3, y4]"
      "is_digit y1" "is_digit y2" "is_digit y3" "is_digit y4"
    using iso_year_digits [OF assms] by blast
  obtain m1 m2 where m: "pad2 (MonthFromTime t + 1) = [m1, m2]" "is_digit m1" "is_digit m2"
    using pad2_digits [of "MonthFromTime t + 1"] MonthFromTime_range [of t] by auto
  obtain d1 d2 where d: "pad2 (DateFromTime t) = [d1, d2]" "is_digit d1" "is_digit d2"
    using pad2_digits [of "DateFromTime t"] DateFromTime_range [of t] by auto
  obtain h1 h2 where h: "pad2 (HourFromTime t) = [h1, h2]" "is_digit h1" "is_digit h2"
    using pad2_digits [of "HourFromTime t"] time_fields_range [of t] by auto
  obtain n1 n2 where n: "pad2 (MinFromTime t) = [n1, n2]" "is_digit n1" "is_digit n2"
    using pad2_digits [of "MinFromTime t"] time_fields_range [of t] by auto
  obtain s1 s2 where s: "pad2 (SecFromTime t) = [s1, s2]" "is_digit s1" "is_digit s2"
    using pad2_digits [of "SecFromTime t"] time_fields_range [of t] by auto
  note nT = is_digit_not_T
  show "\<exists>iso. date_toISOString (Some t) = Inr iso
           \<and> replace_first CHR ''T'' CHR '' '' (take 19 iso) = mysql_datetime_utc t"
    using y m d h n s nT [OF y(2)] nT [OF y(3)] nT [OF y(4)] nT [OF y(5)]
      nT [OF m(2)] nT [OF m(3)] nT [OF d(2)] nT [OF d(3)]
    by (simp add: date_toISOString_def mysql_datetime_utc_def)
  show "is_mysql_datetime (mysql_datetime_utc t)"
    using y m d h n s by (simp add: mysql_datetime_utc_def)
qed

lemma getExpirationDate_days:
  assumes "0 \<le> js_clock w + n * msPerDay" and "js_clock w + n * msPerDay < 253402300800000"
    and "\<bar>js_clock w\<bar> \<le> 8640000000000000"
    and "tza_local tz (LocalTime tz (js_clock w) + n * msPerDay) = tza_utc tz (js_clock w)"
  shows "getExpirationDate tz (Some n) w = Inr (mysql_datetime_utc (js_clock w + n * msPerDay))"
proof -
  let ?t = "js_clock w + n * msPerDay"
  have now: "new_Date w = Some (js_clock w)"
    using assms(3) by (simp add: new_Date_def TimeClip_def)
  have utc: "UTC tz (LocalTime tz (js_clock w) + n * msPerDay) = ?t"
    using assms(4) by (simp add: UTC_def LocalTime_def)
  have clip: "TimeClip ?t = Some ?t"
    using assms(1,2) by (simp add: TimeClip_def)
  have set: "date_setDate tz (new_Date w)
               (map_option (\<lambda>g. g + n) (date_getDate tz (new_Date w))) = Some ?t"
    unfolding now setDate_adds_days utc clip ..
  have yr: "0 \<le> YearFromTime ?t" "YearFromTime ?t \<le> 9999"
    using YearFromTime_in_range [OF assms(1,2)] by simp_all
  from render_mysql_datetime(1) [OF yr] obtain iso where
    iso: "date_toISOString (Some ?t) = Inr iso"
         "replace_first CHR ''T'' CHR '' '' (take 19 iso) = mysql_datetime_utc ?t"
    by blast
  show ?thesis
    by (simp add: getExpirationDate_def Let_def set iso)
qed


text \<open>
  Claim C6, as amended. In a process whose local UTC offset is the same now and at the
  local time 30 days later (always so in a zone without offset changes, such as UTC),
  and for a clock between 1970 and 30 days before the year 10000: getExpirationDate,
  called with 30 or with its default, returns the current time plus 30 days, rendered as
  the UTC fields \<^verbatim>\<open>YYYY-MM-DD HH:MM:SS\<close>; this string is the expiresAt of a 201 answer of
  user registration and the \<^verbatim>\<open>expires_at\<close> of the key row it stores. That row is the
  last row of the key table after the request, and the only new one when no idle
  connection of the pool had a transaction left open.
\<close>

theorem getExpirationDate_thirty_days:
  assumes "0 \<le> js_clock w" and "js_clock w + 30 * msPerDay < 253402300800000"
    and "tza_local tz (LocalTime tz (js_clock w) + 30 * msPerDay) = tza_utc tz (js_clock w)"
  shows "getExpirationDate tz None w = Inr (mysql_datetime_utc (js_clock w + 30 * msPerDay))
    \<and> getExpirationDate tz (Some 30) w = getExpirationDate tz None w
    \<and> is_mysql_datetime (mysql_datetime_utc (js_clock w + 30 * msPerDay))
    \<and> (\<forall>r w'. user_register tz b w = (Some r, w') \<and> status r = 201 \<longrightarrow>
          body r = RegisteredBody ''Registrasi berhasil. API Key dibuat.''
                     (fst (generateApiKey w)) (mysql_datetime_utc (js_clock w + 30 * msPerDay))
          \<and> (\<exists>ks. api_keys (db w') = ks @
                [\<lparr> key_id = next_key_id w, key_user_id = next_user_id w,
                   api_key = fst (generateApiKey w),
                   expires_at = mysql_datetime_utc (js_clock w + 30 * msPerDay),
                   key_created_at = db_clock w \<rparr>])
          \<and> (clean_pool w \<longrightarrow>
                map expires_at (api_keys (db w')) =
                  map expires_at (api_keys (db w))
                  @ [mysql_datetime_utc (js_clock w + 30 * msPerDay)]))"
proof -
  let ?t = "js_clock w + 30 * msPerDay"
  have pos: "0 \<le> ?t"
    using assms(1) by (simp add: msPerDay_def)
  have clk: "\<bar>js_clock w\<bar> \<le> 8640000000000000"
    using assms(1,2) by (simp add: msPerDay_def)
  have dflt: "getExpirationDate tz (Some 30) w = getExpirationDate tz None w"
    by (simp add: getExpirationDate_def)
  have val: "getExpirationDate tz (Some 30) w = Inr (mysql_datetime_utc ?t)"
    using getExpirationDate_days [OF pos assms(2) clk assms(3)] .
  have yr: "0 \<le> YearFromTime ?t" "YearFromTime ?t \<le> 9999"
    using YearFromTime_in_range [OF pos assms(2)] by simp_all
  have fmt: "is_mysql_datetime (mysql_datetime_utc ?t)"
    using render_mysql_datetime(2) [OF yr] .
  have reg: "body r = RegisteredBody ''Registrasi berhasil. API Key dibuat.''
                     (fst (generateApiKey w)) (mysql_datetime_utc ?t)
          \<and> (\<exists>ks. api_keys (db w') = ks @
                [\<lparr> key_id = next_key_id w, key_user_id = next_user_id w,
                   api_key = fst (generateApiKey w), expires_at = mysql_datetime_utc ?t,
                   key_created_at = db_clock w \<rparr>])
          \<and> (clean_pool w \<longrightarrow>
                map expires_at (api_keys (db w')) =
                  map expires_at (api_keys (db w)) @ [mysql_datetime_utc ?t])"
    if a: "user_register tz b w = (Some r, w') \<and> status r = 201" for r w'
  proof (cases "truthy (js_get b ''first_name'') \<and> truthy (js_get b ''last_name'')
                \<and> truthy (js_get b ''email'')")
    case True
    then show ?thesis
      using user_register_outcome [of b tz w "Some r" w'] a val
      by (auto simp: respond_def registered_tables_def)
  next
    case False
    then show ?thesis
      using a by (auto simp: user_register_def respond_def Let_def)
  qed
  from val dflt have nd: "getExpirationDate tz None w = Inr (mysql_datetime_utc ?t)"
    by simp
  show ?thesis
    using nd dflt fmt reg by blast
qed

lemma sample_expiry: "mysql_datetime_utc (js_clock sample_world + 30 * msPerDay) = ''2024-03-31 17:00:00''"
  by code_simp

theorem getExpirationDate_thirty_days_witness:
  "0 \<le> js_clock sample_world \<and> js_clock sample_world + 30 * msPerDay < 253402300800000
   \<and> tza_local utc_zone (LocalTime utc_zone (js_clock sample_world) + 30 * msPerDay)
       = tza_utc utc_zone (js_clock sample_world)
   \<and> getExpirationDate utc_zone None sample_world = Inr ''2024-03-31 17:00:00''
   \<and> getExpirationDate utc_zone (Some 30) sample_world = Inr ''2024-03-31 17:00:00''
   \<and> is_mysql_datetime ''2024-03-31 17:00:00''"
proof -
  have h: "0 \<le> js_clock sample_world"
          "js_clock sample_world + 30 * msPerDay < 253402300800000"
          "tza_local utc_zone (LocalTime utc_zone (js_clock sample_world) + 30 * msPerDay)
             = tza_utc utc_zone (js_clock sample_world)"
    by (simp_all add: sample_world_def msPerDay_def utc_zone_def)
  show ?thesis
    using getExpirationDate_thirty_days [OF h, of ada_body] h sample_expiry by simp
qed

text \<open>
  Claim C6 as stated, without the condition on the offset, fails: at 2024-03-01 17:00:00
  UTC, in a zone that moves from five to four hours behind UTC nine days later, the
  value returned is one hour short of the current time plus 30 days.
\<close>

theorem getExpirationDate_offset_change_counterexample:
  "getExpirationDate us_eastern_2024 None sample_world = Inr ''2024-03-31 16:00:00''
   \<and> mysql_datetime_utc (js_clock sample_world) = ''2024-03-01 17:00:00''
   \<and> mysql_datetime_utc (js_clock sample_world + 30 * msPerDay) = ''2024-03-31 17:00:00''
   \<and> getExpirationDate us_eastern_2024 None sample_world
         \<noteq> Inr (mysql_datetime_utc (js_clock sample_world + 30 * msPerDay))"
  by code_simp

subsection \<open>The digest against its standard\<close>

lemma sha256_abc:
  "to_hex (sha256 (utf8_bytes ''abc'')) =
     ''ba7816bf8f01cfea414140de5dae2223b00361a396177a9cb410ff61f20015ad''"
  by code_simp

end
